theory Spec2Isabelle
  imports Complex_Main
begin

unbundle bit_operations_syntax

section \<open>The cptbox tracer (dmoj/cptbox/tracer.py)\<close>

text \<open>
  A shallow embedding of \<^verbatim>\<open>AdvancedDebugger\<close> and \<^verbatim>\<open>TracedPopen\<close>. The Cython base
  classes \<^verbatim>\<open>Process\<close> and \<^verbatim>\<open>Debugger\<close> (module \<^verbatim>\<open>_cptbox\<close>), the handler constants
  (module \<^verbatim>\<open>handlers\<close>) and the syscall tables (module \<^verbatim>\<open>syscalls\<close>) are imported by
  the file but are not part of it: their constants and tables are parameters of the
  model, collected in the record \<open>config\<close>.
\<close>

subsection \<open>Errors\<close>

text \<open>
  A Python exception is an instance of a class, built from arguments. The class records
  whether its constructor accepts an empty argument list, which is what
  \<^verbatim>\<open>raise cls\<close> needs.
\<close>

datatype exc_class = ExcClass (cls_name: string) (cls_nullary: bool)

datatype exn = Exn (exn_class: exc_class) (exn_args: "string list")

definition ValueError :: "string \<Rightarrow> exn" where
  "ValueError msg = Exn (ExcClass ''ValueError'' True) [msg]"

definition TypeError :: "string \<Rightarrow> exn" where
  "TypeError msg = Exn (ExcClass ''TypeError'' True) [msg]"

definition IndexError :: "string \<Rightarrow> exn" where
  "IndexError msg = Exn (ExcClass ''IndexError'' True) [msg]"

definition KeyError :: "string \<Rightarrow> exn" where
  "KeyError msg = Exn (ExcClass ''KeyError'' True) [msg]"

subsection \<open>ABIs\<close>

datatype abi =
    PTBOX_ABI_X86
  | PTBOX_ABI_X64
  | PTBOX_ABI_X32
  | PTBOX_ABI_ARM
  | PTBOX_ABI_FREEBSD_X64
  | PTBOX_ABI_ARM64
  | PTBOX_ABI_INVALID

text \<open>
  \<^verbatim>\<open>_SYSCALL_INDICIES\<close> is \<^verbatim>\<open>[None] * PTBOX_ABI_COUNT\<close> with the six supported
  slots assigned; the slot of the invalid ABI is never assigned.
\<close>

fun SYSCALL_INDICIES :: "abi \<Rightarrow> nat option" where
  "SYSCALL_INDICIES PTBOX_ABI_X86 = Some 0"
| "SYSCALL_INDICIES PTBOX_ABI_X64 = Some 1"
| "SYSCALL_INDICIES PTBOX_ABI_X32 = Some 2"
| "SYSCALL_INDICIES PTBOX_ABI_ARM = Some 3"
| "SYSCALL_INDICIES PTBOX_ABI_FREEBSD_X64 = Some 4"
| "SYSCALL_INDICIES PTBOX_ABI_ARM64 = Some 5"
| "SYSCALL_INDICIES PTBOX_ABI_INVALID = None"

text \<open>\<^verbatim>\<open>_address_bits\<close>, read with \<^verbatim>\<open>dict.get\<close>: a missing key gives \<^verbatim>\<open>None\<close>.\<close>

fun address_bits :: "abi \<Rightarrow> nat option" where
  "address_bits PTBOX_ABI_X86 = Some 32"
| "address_bits PTBOX_ABI_X64 = Some 64"
| "address_bits PTBOX_ABI_X32 = Some 32"
| "address_bits PTBOX_ABI_ARM = Some 32"
| "address_bits PTBOX_ABI_ARM64 = Some 64"
| "address_bits PTBOX_ABI_FREEBSD_X64 = Some 64"
| "address_bits PTBOX_ABI_INVALID = None"

subsection \<open>Limits set by the constructor\<close>

text \<open>
  \<^verbatim>\<open>time\<close> and \<^verbatim>\<open>wall_time\<close> are Python numbers (seconds); \<^verbatim>\<open>wall_time=None\<close> is the
  default. The three assignments of \<^verbatim>\<open>__init__\<close>:
  \<^verbatim>\<open>
  self._time = time
  self._wall_time = time * 3 if wall_time is None else wall_time
  self._cpu_time = time + 5 if time else 0
  \<close>
  A number is truthy when it is not zero.
\<close>

record limits =
  p_time :: real
  p_wall_time :: real
  p_cpu_time :: real

definition init_limits :: "real \<Rightarrow> real option \<Rightarrow> limits" where
  "init_limits time wall_time =
     \<lparr> p_time = time,
       p_wall_time = (case wall_time of None \<Rightarrow> time * 3 | Some w \<Rightarrow> w),
       p_cpu_time = (if time \<noteq> 0 then time + 5 else 0) \<rparr>"

subsection \<open>Result flags\<close>

text \<open>
  The fields the flag properties read. \<^verbatim>\<open>returncode\<close> and \<^verbatim>\<open>max_memory\<close> are
  properties of the base class \<^verbatim>\<open>Process\<close>; here they are fields of the snapshot.
\<close>

record snapshot =
  returncode :: "int option"
  max_memory :: int
  p_memory :: int

text \<open>A Python value as a property returns it: a \<^verbatim>\<open>bool\<close> or an \<^verbatim>\<open>int\<close>.\<close>

datatype pyval = PyBool bool | PyInt int

fun truthy :: "pyval \<Rightarrow> bool" where
  "truthy (PyBool b) = b"
| "truthy (PyInt n) = (n \<noteq> 0)"

text \<open>
  \<^verbatim>\<open>return self.returncode > 0\<close>: comparing \<^verbatim>\<open>None\<close> with an integer raises
  \<^verbatim>\<open>TypeError\<close>.
\<close>

definition is_ir :: "snapshot \<Rightarrow> exn + pyval" where
  "is_ir s =
     (case returncode s of
        None \<Rightarrow> Inl (TypeError ''> not supported between NoneType and int'')
      | Some r \<Rightarrow> Inr (PyBool (r > 0)))"

text \<open>
  \<^verbatim>\<open>return self._memory and self.max_memory > self._memory\<close>: \<^verbatim>\<open>and\<close> returns its
  left operand when that is falsy.
\<close>

definition is_mle :: "snapshot \<Rightarrow> exn + pyval" where
  "is_mle s =
     (if truthy (PyInt (p_memory s)) then Inr (PyBool (max_memory s > p_memory s))
      else Inr (PyInt (p_memory s)))"

text \<open>\<^verbatim>\<open>return self.returncode is None or self.returncode < 0\<close>\<close>

definition is_rte :: "snapshot \<Rightarrow> exn + pyval" where
  "is_rte s =
     (case returncode s of
        None \<Rightarrow> Inr (PyBool True)
      | Some r \<Rightarrow> Inr (PyBool (r < 0)))"

text \<open>A property holds when it returns, and returns a truthy value.\<close>

definition holds :: "exn + pyval \<Rightarrow> bool" where
  "holds r = (case r of Inl e \<Rightarrow> False | Inr v \<Rightarrow> truthy v)"

subsection \<open>Loops that may raise\<close>

text \<open>
  A \<^verbatim>\<open>for\<close> loop whose body updates a state and may raise: the first exception
  leaves the loop.
\<close>

fun for_each :: "('a \<Rightarrow> 's \<Rightarrow> exn + 's) \<Rightarrow> 'a list \<Rightarrow> 's \<Rightarrow> exn + 's" where
  "for_each body [] s = Inr s"
| "for_each body (x # xs) s =
     (case body x s of Inl e \<Rightarrow> Inl e | Inr s' \<Rightarrow> for_each body xs s')"

subsection \<open>The debugger\<close>

text \<open>
  Python \<^verbatim>\<open>bytes\<close> are lists of 8-bit characters. The tracee's memory gives the byte
  at an address, or nothing where the address is unreadable.
\<close>

record debugger =
  dbg_abi :: abi
  dbg_syscall :: int
  uarg0 :: nat
  uarg1 :: nat
  uarg2 :: nat
  uarg3 :: nat
  uarg4 :: nat
  uarg5 :: nat
  memory :: "int \<Rightarrow> char option"

text \<open>
  Modelled from the spec: \<^verbatim>\<open>Debugger.readstr(address, size)\<close> of the Cython base class,
  which is not in the file. It reads a NUL-terminated string from the tracee's memory, at
  most \<open>size\<close> bytes of it, and returns null when the memory is unreadable.
\<close>

fun read_cstring :: "(int \<Rightarrow> char option) \<Rightarrow> int \<Rightarrow> nat \<Rightarrow> string option" where
  "read_cstring mem a 0 = Some []"
| "read_cstring mem a (Suc k) =
     (case mem a of
        None \<Rightarrow> None
      | Some b \<Rightarrow>
          if b = CHR 0x00 then Some []
          else map_option ((#) b) (read_cstring mem (a + 1) k))"

definition Debugger_readstr :: "debugger \<Rightarrow> int \<Rightarrow> nat \<Rightarrow> string option" where
  "Debugger_readstr d address n = read_cstring (memory d) address n"

definition MaxLengthExceeded :: "string \<Rightarrow> exn" where
  "MaxLengthExceeded read = Exn (ExcClass ''MaxLengthExceeded'' True) [read]"

text \<open>
  \<^verbatim>\<open>AdvancedDebugger.readstr\<close>. \<^verbatim>\<open>utf8text\<close> (module \<^verbatim>\<open>dmoj.utils.unicode\<close>) decodes
  the bytes; it is not in the file and is a parameter, which may raise.
  \<^verbatim>\<open>
  if self.address_bits == 32:
      address &= 0xFFFFFFFF
  read = super().readstr(address, max_size + 1)
  if read is None:
      return None
  if len(read) > max_size:
      raise MaxLengthExceeded(read)
  return utf8text(read)
  \<close>
\<close>

definition readstr ::
  "(string \<Rightarrow> exn + string) \<Rightarrow> debugger \<Rightarrow> int \<Rightarrow> nat \<Rightarrow> exn + string option" where
  "readstr utf8text d address max_size =
     (let address' = (if address_bits (dbg_abi d) = Some 32 then address AND 0xFFFFFFFF
                      else address)
      in case Debugger_readstr d address' (max_size + 1) of
           None \<Rightarrow> Inr None
         | Some read \<Rightarrow>
             if length read > max_size then Inl (MaxLengthExceeded read)
             else (case utf8text read of Inl e \<Rightarrow> Inl e | Inr text \<Rightarrow> Inr (Some text)))"

subsection \<open>The policy tables\<close>

text \<open>
  The constants and tables of the modules \<^verbatim>\<open>_cptbox\<close>, \<^verbatim>\<open>handlers\<close> and \<^verbatim>\<open>syscalls\<close>.
  \<open>translator cfg i ix\<close> is \<^verbatim>\<open>translator[i][ix]\<close>: the native numbers of the
  canonical syscall \<open>i\<close> in the table column \<open>ix\<close>; an entry may be \<^verbatim>\<open>None\<close>. The
  table has \<open>SYSCALL_COUNT\<close> rows, and \<open>by_id\<close> names them.
\<close>

record config =
  MAX_SYSCALL_NUMBER :: nat
  SYSCALL_COUNT :: nat
  translator :: "nat \<Rightarrow> nat \<Rightarrow> nat option list"
  by_id :: "nat \<Rightarrow> string"
  SUPPORTED_ABIS :: "abi list"
  NATIVE_ABI :: abi
  ALLOW :: int
  DISALLOW :: int
  CALLBACK :: int
  sys_exit :: nat
  sys_exit_group :: nat

text \<open>
  A value of the security map: an integer (a \<^verbatim>\<open>bool\<close> is one), a callable taking the
  debugger, a string, or any other object, given by the name of its type.
\<close>

datatype handler =
    HInt int
  | HCallable "debugger \<Rightarrow> bool"
  | HStr string
  | HObject string

type_synonym security = "nat \<Rightarrow> handler option"

text \<open>\<^verbatim>\<open>security.get(i, DISALLOW)\<close>\<close>

definition security_get :: "config \<Rightarrow> security \<Rightarrow> nat \<Rightarrow> handler" where
  "security_get cfg security i =
     (case security i of None \<Rightarrow> HInt (DISALLOW cfg) | Some h \<Rightarrow> h)"

text \<open>
  \<open>callbacks\<close> is \<^verbatim>\<open>self._callbacks\<close>, one list for each ABI.
  \<^verbatim>\<open>self._handler(abi, call, handler)\<close> is a method of the Cython base class, which is
  not in the file: \<open>handler_calls\<close> lists the calls made to it, the most recent first.
\<close>

record policy =
  callbacks :: "abi \<Rightarrow> (debugger \<Rightarrow> bool) option list"
  handler_calls :: "(abi \<times> nat \<times> int) list"

definition call_handler :: "abi \<Rightarrow> nat \<Rightarrow> int \<Rightarrow> policy \<Rightarrow> policy" where
  "call_handler a call h p = p\<lparr>handler_calls := (a, call, h) # handler_calls p\<rparr>"

text \<open>
  \<^verbatim>\<open>self._callbacks = [[None] * MAX_SYSCALL_NUMBER for _ in range(PTBOX_ABI_COUNT)]\<close>
\<close>

definition initial_policy :: "config \<Rightarrow> policy" where
  "initial_policy cfg =
     \<lparr> callbacks = (\<lambda>a. replicate (MAX_SYSCALL_NUMBER cfg) None), handler_calls = [] \<rparr>"

text \<open>
  The body of the innermost loop of \<^verbatim>\<open>__init__\<close>:
  \<^verbatim>\<open>
  if call is None:
      continue
  handler = security.get(i, DISALLOW)
  if not isinstance(handler, int):
      if not callable(handler):
          raise ValueError('Handler not callable: ' + handler)
      self._callbacks[abi][call] = handler
      handler = _CALLBACK
  self._handler(abi, call, handler)
  \<close>
  \<^verbatim>\<open>'Handler not callable: ' + handler\<close> is a string only when \<^verbatim>\<open>handler\<close> is one: for
  any other object the concatenation raises \<^verbatim>\<open>TypeError\<close>. The assignment to the list
  raises \<^verbatim>\<open>IndexError\<close> beyond its length.
\<close>

definition install_call ::
  "config \<Rightarrow> security \<Rightarrow> abi \<Rightarrow> nat \<Rightarrow> nat option \<Rightarrow> policy \<Rightarrow> exn + policy" where
  "install_call cfg security a i c p =
     (case c of
        None \<Rightarrow> Inr p
      | Some call \<Rightarrow>
          (case security_get cfg security i of
             HInt h \<Rightarrow> Inr (call_handler a call h p)
           | HCallable f \<Rightarrow>
               if call < length (callbacks p a)
               then Inr (call_handler a call (CALLBACK cfg)
                      (p\<lparr>callbacks := (callbacks p)(a := (callbacks p a)[call := Some f])\<rparr>))
               else Inl (IndexError ''list assignment index out of range'')
           | HStr s \<Rightarrow> Inl (ValueError (''Handler not callable: '' @ s))
           | HObject ty \<Rightarrow>
               Inl (TypeError (''can only concatenate str (not '' @ ty @ '') to str''))))"

text \<open>
  The three nested loops:
  \<^verbatim>\<open>
  for abi in SUPPORTED_ABIS:
      index = _SYSCALL_INDICIES[abi]
      for i in range(SYSCALL_COUNT):
          for call in translator[i][index]:
  \<close>
  An ABI without a column (\<^verbatim>\<open>index\<close> is \<^verbatim>\<open>None\<close>) cannot index the table.
\<close>

definition install_syscall ::
  "config \<Rightarrow> security \<Rightarrow> abi \<Rightarrow> nat \<Rightarrow> nat \<Rightarrow> policy \<Rightarrow> exn + policy" where
  "install_syscall cfg security a ix i p =
     for_each (install_call cfg security a i) (translator cfg i ix) p"

definition install_abi :: "config \<Rightarrow> security \<Rightarrow> abi \<Rightarrow> policy \<Rightarrow> exn + policy" where
  "install_abi cfg security a p =
     (case SYSCALL_INDICIES a of
        None \<Rightarrow> Inl (TypeError ''list indices must be integers or slices, not NoneType'')
      | Some ix \<Rightarrow> for_each (install_syscall cfg security a ix) [0..<SYSCALL_COUNT cfg] p)"

definition install_policy :: "config \<Rightarrow> security \<Rightarrow> policy \<Rightarrow> exn + policy" where
  "install_policy cfg security p = for_each (install_abi cfg security) (SUPPORTED_ABIS cfg) p"

subsection \<open>The seccomp whitelist\<close>

text \<open>
  \<^verbatim>\<open>_get_seccomp_whitelist\<close>:
  \<^verbatim>\<open>
  whitelist = [False] * MAX_SYSCALL_NUMBER
  index = _SYSCALL_INDICIES[NATIVE_ABI]
  for i in range(SYSCALL_COUNT):
      if i in (sys_exit, sys_exit_group):
          continue
      handler = self._security.get(i, DISALLOW)
      for call in translator[i][index]:
          if call is None:
              continue
          if isinstance(handler, int):
              whitelist[call] = handler == ALLOW
  return whitelist
  \<close>
\<close>

definition whitelist_call :: "config \<Rightarrow> handler \<Rightarrow> nat option \<Rightarrow> bool list \<Rightarrow> exn + bool list" where
  "whitelist_call cfg h c whitelist =
     (case c of
        None \<Rightarrow> Inr whitelist
      | Some call \<Rightarrow>
          (case h of
             HInt v \<Rightarrow>
               if call < length whitelist then Inr (whitelist[call := (v = ALLOW cfg)])
               else Inl (IndexError ''list assignment index out of range'')
           | _ \<Rightarrow> Inr whitelist))"

definition whitelist_syscall ::
  "config \<Rightarrow> security \<Rightarrow> nat \<Rightarrow> nat \<Rightarrow> bool list \<Rightarrow> exn + bool list" where
  "whitelist_syscall cfg security ix i whitelist =
     (if i = sys_exit cfg \<or> i = sys_exit_group cfg then Inr whitelist
      else for_each (whitelist_call cfg (security_get cfg security i))
             (translator cfg i ix) whitelist)"

definition get_seccomp_whitelist :: "config \<Rightarrow> security \<Rightarrow> exn + bool list" where
  "get_seccomp_whitelist cfg security =
     (case SYSCALL_INDICIES (NATIVE_ABI cfg) of
        None \<Rightarrow> Inl (TypeError ''list indices must be integers or slices, not NoneType'')
      | Some ix \<Rightarrow>
          for_each (whitelist_syscall cfg security ix) [0..<SYSCALL_COUNT cfg]
            (replicate (MAX_SYSCALL_NUMBER cfg) False))"

subsection \<open>The callback for a syscall\<close>

text \<open>
  A Python list indexed by an integer: a negative index counts from the end, and an
  index outside the list raises \<^verbatim>\<open>IndexError\<close> (here \<open>None\<close>).
\<close>

definition py_index :: "'a list \<Rightarrow> int \<Rightarrow> 'a option" where
  "py_index xs i =
     (if 0 \<le> i \<and> i < int (length xs) then Some (xs ! nat i)
      else if - int (length xs) \<le> i \<and> i < 0 then Some (xs ! nat (int (length xs) + i))
      else None)"

text \<open>
  \<^verbatim>\<open>_callback(self, syscall)\<close>, with the debugger of the traced process:
  \<^verbatim>\<open>
  if self.debugger.abi == PTBOX_ABI_INVALID:
      return False
  try:
      callback = self._callbacks[self.debugger.abi][syscall]
  except IndexError:
      if self.debugger.abi == PTBOX_ABI_ARM:
          return 0xF0000 < syscall < 0xF0006
      return False
  if callback is not None:
      return callback(self.debugger)
  return False
  \<close>
\<close>

definition callback :: "policy \<Rightarrow> debugger \<Rightarrow> int \<Rightarrow> bool" where
  "callback p d syscall =
     (if dbg_abi d = PTBOX_ABI_INVALID then False
      else case py_index (callbacks p (dbg_abi d)) syscall of
             None \<Rightarrow>
               (if dbg_abi d = PTBOX_ABI_ARM then 0xF0000 < syscall \<and> syscall < 0xF0006
                else False)
           | Some None \<Rightarrow> False
           | Some (Some f) \<Rightarrow> f d)"

subsection \<open>Example inputs\<close>

text \<open>A tracee on x86 whose memory holds the string \<open>hi\<close> at address 5.\<close>

definition example_memory :: "int \<Rightarrow> char option" where
  "example_memory x =
     (if x = 5 then Some CHR ''h'' else if x = 6 then Some CHR ''i''
      else if x = 7 then Some (CHR 0x00) else None)"

definition example_debugger :: debugger where
  "example_debugger =
     \<lparr> dbg_abi = PTBOX_ABI_X86, dbg_syscall = 5, uarg0 = 4294967301, uarg1 = 0, uarg2 = 0,
       uarg3 = 0, uarg4 = 0, uarg5 = 0, memory = example_memory \<rparr>"

subsection \<open>Properties of the syscall table\<close>

text \<open>
  In the column \<open>ix\<close> of the table, a native number belongs to one canonical syscall
  only.
\<close>

definition one_canonical :: "config \<Rightarrow> nat \<Rightarrow> bool" where
  "one_canonical cfg ix =
     (\<forall>i<SYSCALL_COUNT cfg. \<forall>j<SYSCALL_COUNT cfg. \<forall>c.
        Some c \<in> set (translator cfg i ix) \<and> Some c \<in> set (translator cfg j ix) \<longrightarrow> i = j)"

text \<open>Every native number of the column \<open>ix\<close> is below \<open>MAX_SYSCALL_NUMBER\<close>.\<close>

definition numbers_in_range :: "config \<Rightarrow> nat \<Rightarrow> bool" where
  "numbers_in_range cfg ix =
     (\<forall>i<SYSCALL_COUNT cfg. \<forall>c.
        Some c \<in> set (translator cfg i ix) \<longrightarrow> c < MAX_SYSCALL_NUMBER cfg)"

text \<open>The canonical syscall \<open>i\<close> writes the whitelist entry of the native number \<open>n\<close>.\<close>

definition whitelist_writes :: "config \<Rightarrow> security \<Rightarrow> nat \<Rightarrow> nat \<Rightarrow> nat \<Rightarrow> bool" where
  "whitelist_writes cfg security ix i n =
     (i \<noteq> sys_exit cfg \<and> i \<noteq> sys_exit_group cfg \<and>
      (\<exists>v. security_get cfg security i = HInt v) \<and> Some n \<in> set (translator cfg i ix))"


text \<open>A small table: read, write, exit and exit_group, the same in every column.\<close>

definition example_config :: config where
  "example_config =
     \<lparr> MAX_SYSCALL_NUMBER = 8, SYSCALL_COUNT = 4,
       translator = (\<lambda>i ix. if i = 0 then [Some 3] else if i = 1 then [Some 4, None]
                             else if i = 2 then [Some 1] else if i = 3 then [Some 7] else []),
       by_id = (\<lambda>i. if i = 0 then ''read'' else if i = 1 then ''write''
                     else if i = 2 then ''exit'' else ''exit_group''),
       SUPPORTED_ABIS = [PTBOX_ABI_X86, PTBOX_ABI_X64], NATIVE_ABI = PTBOX_ABI_X64,
       ALLOW = 1, DISALLOW = 0, CALLBACK = 2, sys_exit = 2, sys_exit_group = 3 \<rparr>"

definition example_security :: security where
  "example_security = [0 \<mapsto> HInt 1, 1 \<mapsto> HCallable (\<lambda>d. uarg0 d = 0), 2 \<mapsto> HInt 1]"

subsection \<open>Naming a syscall\<close>

text \<open>
  \<^verbatim>\<open>AdvancedDebugger.get_syscall_name\<close>:
  \<^verbatim>\<open>
  if self.abi == PTBOX_ABI_INVALID:
      return 'failed to read registers'
  callname = 'unknown'
  index = _SYSCALL_INDICIES[self.abi]
  for id, call in enumerate(translator):
      if syscall in call[index]:
          callname = by_id[id]
          break
  return callname
  \<close>
\<close>

definition lists_syscall :: "config \<Rightarrow> nat \<Rightarrow> int \<Rightarrow> nat \<Rightarrow> bool" where
  "lists_syscall cfg ix syscall i = (0 \<le> syscall \<and> Some (nat syscall) \<in> set (translator cfg i ix))"

definition get_syscall_name :: "config \<Rightarrow> debugger \<Rightarrow> int \<Rightarrow> string" where
  "get_syscall_name cfg d syscall =
     (if dbg_abi d = PTBOX_ABI_INVALID then ''failed to read registers''
      else case SYSCALL_INDICIES (dbg_abi d) of
             None \<Rightarrow> ''unknown''
           | Some ix \<Rightarrow>
               (case find (lists_syscall cfg ix syscall) [0..<SYSCALL_COUNT cfg] of
                  None \<Rightarrow> ''unknown''
                | Some i \<Rightarrow> by_id cfg i))"

subsection \<open>The traced process\<close>

text \<open>
  The fields of \<^verbatim>\<open>TracedPopen\<close> that the methods below read and write;
  \<open>self_time\<close> is \<^verbatim>\<open>self._time\<close>, and so on. \<^verbatim>\<open>self._spawn_error\<close> holds what
  \<^verbatim>\<open>sys.exc_info()[0]\<close> gives: the class of the exception being handled.
\<close>

type_synonym fault = "int \<times> string \<times> nat list \<times> int option"

record tracer =
  self_time :: real
  self_wall_time :: real
  self_is_tle :: bool
  self_spawn_error :: "exc_class option"
  self_last_ptrace_errno :: "int option"
  self_protection_fault :: "fault option"
  stdin_needs_close :: bool
  stdout_needs_close :: bool
  stderr_needs_close :: bool

subsection \<open>Protection faults\<close>

text \<open>
  \<^verbatim>\<open>_protection_fault(self, syscall, is_update)\<close>. The logging calls leave the state
  alone, but \<^verbatim>\<open>errno.errorcode[err]\<close> is a dictionary lookup, which raises \<^verbatim>\<open>KeyError\<close>
  for a number that is not in the table; \<open>errorcode\<close> is that table.
  \<^verbatim>\<open>
  if syscall == -1:
      err = self._last_ptrace_errno
      if err is None:
          log.error('ptrace failed with unknown error')
      else:
          log.error('ptrace error: %d (%s: %s)', err, errno.errorcode[err], os.strerror(err))
      self.protection_fault = (-1, 'ptrace fail', [0] * 6, None)
  else:
      callname = self.debugger.get_syscall_name(syscall)
      self.protection_fault = (
          syscall,
          callname,
          [self.debugger.uarg0, ..., self.debugger.uarg5],
          self._last_ptrace_errno if is_update else None,
      )
  \<close>
\<close>

definition protection_fault ::
  "config \<Rightarrow> (int \<Rightarrow> string option) \<Rightarrow> debugger \<Rightarrow> tracer \<Rightarrow> int \<Rightarrow> bool \<Rightarrow> exn + tracer" where
  "protection_fault cfg errorcode d t syscall is_update =
     (if syscall = - 1 then
        (case self_last_ptrace_errno t of
           None \<Rightarrow>
             Inr (t\<lparr>self_protection_fault := Some (- 1, ''ptrace fail'', replicate 6 0, None)\<rparr>)
         | Some err \<Rightarrow>
             (case errorcode err of
                None \<Rightarrow> Inl (KeyError ''errno.errorcode'')
              | Some name \<Rightarrow>
                  Inr (t\<lparr>self_protection_fault :=
                          Some (- 1, ''ptrace fail'', replicate 6 0, None)\<rparr>)))
      else
        Inr (t\<lparr>self_protection_fault :=
                Some (syscall, get_syscall_name cfg d syscall,
                      [uarg0 d, uarg1 d, uarg2 d, uarg3 d, uarg4 d, uarg5 d],
                      if is_update then self_last_ptrace_errno t else None)\<rparr>))"

text \<open>\<^verbatim>\<open>_ptrace_error(self, error)\<close>\<close>

definition ptrace_error :: "tracer \<Rightarrow> int \<Rightarrow> tracer" where
  "ptrace_error t error = t\<lparr>self_last_ptrace_errno := Some error\<rparr>"

text \<open>
  Modelled from the spec: the policy table of the base class \<^verbatim>\<open>Process\<close> (section 3),
  which is not in the file. It holds, for an ABI and a native number, the handler passed
  to \<^verbatim>\<open>_handler\<close> last; an entry never set is deny.
\<close>

definition policy_table :: "config \<Rightarrow> policy \<Rightarrow> abi \<Rightarrow> nat \<Rightarrow> int" where
  "policy_table cfg p a n =
     (case find (\<lambda>(a', call, h). a' = a \<and> call = n) (handler_calls p) of
        None \<Rightarrow> DISALLOW cfg
      | Some (a', call, h) \<Rightarrow> h)"

text \<open>
  Modelled from the spec: \<^verbatim>\<open>on_syscall(abi, native_n, debugger)\<close> of the policy table
  (section 4.2), which the monitor loop of the base class \<^verbatim>\<open>Process\<close> performs; the loop
  is not in the file. It looks up the handler: allow gives true, deny gives false, a
  callback gives the verdict of \<open>callback\<close>; a number outside the table goes to
  \<open>callback\<close> too, which decides on the ARM-private window.
\<close>

definition on_syscall :: "config \<Rightarrow> policy \<Rightarrow> debugger \<Rightarrow> int \<Rightarrow> bool" where
  "on_syscall cfg p d native_n =
     (if 0 \<le> native_n \<and> native_n < int (MAX_SYSCALL_NUMBER cfg) then
        (let h = policy_table cfg p (dbg_abi d) (nat native_n)
         in if h = ALLOW cfg then True
            else if h = CALLBACK cfg then callback p d native_n
            else False)
      else callback p d native_n)"

text \<open>
  Modelled from the spec: what the monitor loop does at a syscall-entry stop
  (section 4.3). A syscall reported as \<open>-1\<close> is a failed ptrace read: the fault is
  recorded and the tracee terminated. Otherwise the tracee is continued when
  \<open>on_syscall\<close> allows the call; when it denies, the fault is recorded and the tracee
  terminated.
\<close>

datatype tracee = Continued | Terminated

definition monitor_syscall_entry ::
  "config \<Rightarrow> (int \<Rightarrow> string option) \<Rightarrow> policy \<Rightarrow> debugger \<Rightarrow> tracer \<Rightarrow> exn + tracer \<times> tracee" where
  "monitor_syscall_entry cfg errorcode p d t =
     (if dbg_syscall d = - 1 then
        (case protection_fault cfg errorcode d t (- 1) False of
           Inl e \<Rightarrow> Inl e
         | Inr t' \<Rightarrow> Inr (t', Terminated))
      else if on_syscall cfg p d (dbg_syscall d) then Inr (t, Continued)
      else
        (case protection_fault cfg errorcode d t (dbg_syscall d) False of
           Inl e \<Rightarrow> Inl e
         | Inr t' \<Rightarrow> Inr (t', Terminated)))"

text \<open>
  A traced process after a failed ptrace call with errno 3 (\<open>ESRCH\<close>), and a debugger
  whose register read failed.
\<close>

definition example_tracer :: tracer where
  "example_tracer =
     \<lparr> self_time = 2, self_wall_time = 6, self_is_tle = False, self_spawn_error = None,
       self_last_ptrace_errno = Some 3, self_protection_fault = None,
       stdin_needs_close = True, stdout_needs_close = True, stderr_needs_close = False \<rparr>"

definition example_errorcode :: "int \<Rightarrow> string option" where
  "example_errorcode = [1 \<mapsto> ''EPERM'', 3 \<mapsto> ''ESRCH'', 5 \<mapsto> ''EIO'']"

definition failed_debugger :: debugger where
  "failed_debugger = example_debugger\<lparr>dbg_syscall := - 1\<rparr>"

text \<open>
  A tracee stopped on ARM at the private syscall \<open>0xF0002\<close>, and one stopped on x86-64
  at the native number 7.
\<close>

definition arm_debugger :: debugger where
  "arm_debugger = example_debugger\<lparr>dbg_abi := PTBOX_ABI_ARM, dbg_syscall := 0xF0002\<rparr>"

definition x64_debugger :: debugger where
  "x64_debugger = example_debugger\<lparr>dbg_abi := PTBOX_ABI_X64, dbg_syscall := 7\<rparr>"

text \<open>
  Two security maps with a handler that is neither an integer nor callable: \<^verbatim>\<open>None\<close>,
  and the string \<^verbatim>\<open>'allow'\<close>.
\<close>

definition none_security :: security where
  "none_security = [1 \<mapsto> HObject ''NoneType'']"

definition string_security :: security where
  "string_security = [1 \<mapsto> HStr ''allow'']"

subsection \<open>The worker thread\<close>

text \<open>
  What the worker thread does, in program order. The calls it makes outside the file are
  given by the environment: whether \<^verbatim>\<open>self._spawn\<close> raises, whether
  \<^verbatim>\<open>oom_score_adj\<close> raises, what \<^verbatim>\<open>self._monitor()\<close> returns and what
  \<^verbatim>\<open>self.execution_time\<close> is after it. \<^verbatim>\<open>os.close\<close> on the child's pipe ends is taken
  to succeed.
\<close>

datatype event =
    CallSpawn
  | SetDied
  | SetSpawnedOrErrored
  | CloseFd string
  | OomScoreAdj
  | PrintExc
  | CallMonitor

record worker_env =
  spawn_raises :: "exn option"
  oom_score_adj_raises :: bool
  monitor_returns :: int
  execution_time_after :: real

text \<open>The \<^verbatim>\<open>finally\<close> block, up to the event.\<close>

definition close_child_ends :: "tracer \<Rightarrow> event list" where
  "close_child_ends t =
     (if stdin_needs_close t then [CloseFd ''child_stdin''] else []) @
     (if stdout_needs_close t then [CloseFd ''child_stdout''] else []) @
     (if stderr_needs_close t then [CloseFd ''child_stderr''] else [])"

text \<open>
  \<^verbatim>\<open>_run_process\<close>:
  \<^verbatim>\<open>
  try:
      self._spawn(self._executable, self._args, self._env, self._chdir)
  except:
      self._spawn_error = sys.exc_info()[0]
      self._died.set()
      return
  finally:
      (close the child's pipe ends)
      self._spawned_or_errored.set()
  if not FREEBSD:
      try:
          oom_score_adj(OOM_SCORE_ADJ_MAX, self.pid)
      except Exception:
          traceback.print_exc()
  code = self._monitor()
  if self._time and self.execution_time > self._time:
      self._is_tle = True
  self._died.set()
  return code
  \<close>
  The \<^verbatim>\<open>return\<close> of the \<^verbatim>\<open>except\<close> block runs the \<^verbatim>\<open>finally\<close> block before it
  leaves. The result is the state, the events in order, and the value returned.
  What the monitor loop does to the fields through the callbacks is not part of it.
\<close>

definition run_process :: "bool \<Rightarrow> worker_env \<Rightarrow> tracer \<Rightarrow> tracer \<times> event list \<times> int option" where
  "run_process FREEBSD env t =
     (case spawn_raises env of
        Some e \<Rightarrow>
          (t\<lparr>self_spawn_error := Some (exn_class e)\<rparr>,
           [CallSpawn, SetDied] @ close_child_ends t @ [SetSpawnedOrErrored],
           None)
      | None \<Rightarrow>
          ((if self_time t \<noteq> 0 \<and> execution_time_after env > self_time t
            then t\<lparr>self_is_tle := True\<rparr> else t),
           [CallSpawn] @ close_child_ends t @ [SetSpawnedOrErrored] @
           (if FREEBSD then []
            else OomScoreAdj # (if oom_score_adj_raises env then [PrintExc] else [])) @
           [CallMonitor, SetDied],
           Some (monitor_returns env)))"

text \<open>
  In a list of events, \<open>a\<close> comes strictly before \<open>b\<close>: both occur, and no \<open>b\<close>
  occurs before the first \<open>a\<close>.
\<close>

definition strictly_before :: "event \<Rightarrow> event \<Rightarrow> event list \<Rightarrow> bool" where
  "strictly_before a b es =
     (a \<in> set es \<and> b \<in> set es \<and> b \<notin> set (takeWhile (\<lambda>e. e \<noteq> a) es))"

subsection \<open>The end of the constructor\<close>

text \<open>
  \<^verbatim>\<open>raise cls\<close> with a class builds the instance without arguments; when the class
  cannot be built so, building it raises \<^verbatim>\<open>TypeError\<close>.
\<close>

definition raise_class :: "exc_class \<Rightarrow> exn" where
  "raise_class c =
     (if cls_nullary c then Exn c []
      else TypeError (cls_name c @ ''() missing required arguments''))"

text \<open>
  The caller thread:
  \<^verbatim>\<open>
  self._spawned_or_errored.wait()
  if self._spawn_error:
      raise self._spawn_error
  \<close>
  It waits for the event; without the event it would block. A class is truthy.
\<close>

datatype outcome = Returned | Raised exn | Blocked

definition wait_spawned :: "tracer \<Rightarrow> event list \<Rightarrow> outcome" where
  "wait_spawned t es =
     (if SetSpawnedOrErrored \<in> set es then
        (case self_spawn_error t of None \<Rightarrow> Returned | Some c \<Rightarrow> Raised (raise_class c))
      else Blocked)"

text \<open>
  The constructor, from the limits on. The arguments it reads: \<^verbatim>\<open>security\<close> (or
  \<^verbatim>\<open>None\<close>), \<^verbatim>\<open>time\<close>, \<^verbatim>\<open>wall_time\<close> (or \<^verbatim>\<open>None\<close>), and whether each of
  \<^verbatim>\<open>stdin\<close>, \<^verbatim>\<open>stdout\<close>, \<^verbatim>\<open>stderr\<close> is \<^verbatim>\<open>PIPE\<close>.
  \<^verbatim>\<open>
  if security is None:
      self._trace_syscalls = False
  else:
      (install the policy)
  self._died = threading.Event()
  self._spawned_or_errored = threading.Event()
  self._spawn_error = None
  if time:
      self._shocker = threading.Thread(target=self._shocker_thread)
      self._shocker.start()
  self._worker = threading.Thread(target=self._run_process)
  self._worker.start()
  self._spawned_or_errored.wait()
  if self._spawn_error:
      raise self._spawn_error
  \<close>
  The result says how the constructor ended, which threads it started, and what the
  worker does (to its end, which may come after the constructor has returned).
\<close>

record args =
  arg_security :: "security option"
  arg_time :: real
  arg_wall_time :: "real option"
  stdin_is_pipe :: bool
  stdout_is_pipe :: bool
  stderr_is_pipe :: bool

record construction =
  ended :: outcome
  shocker_started :: bool
  worker_started :: bool
  worker_events :: "event list"
  worker_state :: "tracer option"

definition init_tracer :: "args \<Rightarrow> tracer" where
  "init_tracer a =
     \<lparr> self_time = p_time (init_limits (arg_time a) (arg_wall_time a)),
       self_wall_time = p_wall_time (init_limits (arg_time a) (arg_wall_time a)),
       self_is_tle = False, self_spawn_error = None,
       self_last_ptrace_errno = None, self_protection_fault = None,
       stdin_needs_close = stdin_is_pipe a, stdout_needs_close = stdout_is_pipe a,
       stderr_needs_close = stderr_is_pipe a \<rparr>"

definition init_policy :: "config \<Rightarrow> args \<Rightarrow> exn + policy" where
  "init_policy cfg a =
     (case arg_security a of
        None \<Rightarrow> Inr (initial_policy cfg)
      | Some security \<Rightarrow> install_policy cfg security (initial_policy cfg))"

definition TracedPopen_init ::
  "config \<Rightarrow> bool \<Rightarrow> worker_env \<Rightarrow> args \<Rightarrow> construction" where
  "TracedPopen_init cfg FREEBSD env a =
     (case init_policy cfg a of
        Inl e \<Rightarrow>
          \<lparr> ended = Raised e, shocker_started = False, worker_started = False,
            worker_events = [], worker_state = None \<rparr>
      | Inr p \<Rightarrow>
          (case run_process FREEBSD env (init_tracer a) of
             (t, es, code) \<Rightarrow>
               \<lparr> ended = wait_spawned t es, shocker_started = (arg_time a \<noteq> 0),
                 worker_started = True, worker_events = es, worker_state = Some t \<rparr>))"

subsection \<open>The watchdog thread\<close>

text \<open>
  What the watchdog sees when \<^verbatim>\<open>self._died.wait(1)\<close> returns: whether the event is
  set, the two clocks, the return code, and whether \<^verbatim>\<open>os.killpg\<close> raises
  \<^verbatim>\<open>OSError\<close> at that moment.
\<close>

record wake =
  w_died :: bool
  w_execution_time :: real
  w_wall_clock_time :: real
  w_returncode :: "int option"
  w_killpg_raises :: bool

datatype signal = SIGKILL | SIGWINCH | SIGSTOP

datatype effect = Killpg signal | LogWarning string | PrintTraceback

text \<open>
  \<^verbatim>\<open>kill\<close>:
  \<^verbatim>\<open>
  if self.returncode is None:
      log.warning('Request the killing of process: %s', self.pid)
      try:
          os.killpg(self.pid, signal.SIGKILL)
      except OSError:
          traceback.print_exc()
  else:
      log.warning('Skipping the killing of process because it already exited: %s', self.pid)
  \<close>
\<close>

definition kill :: "wake \<Rightarrow> effect list" where
  "kill w =
     (case w_returncode w of
        None \<Rightarrow>
          [LogWarning ''Request the killing of process'', Killpg SIGKILL] @
          (if w_killpg_raises w then [PrintTraceback] else [])
      | Some rc \<Rightarrow>
          [LogWarning ''Skipping the killing of process because it already exited''])"

text \<open>
  \<^verbatim>\<open>wake_signal = signal.SIGSTOP if 'freebsd' in sys.platform else signal.SIGWINCH\<close>
\<close>

definition wake_signal :: "bool \<Rightarrow> signal" where
  "wake_signal freebsd = (if freebsd then SIGSTOP else SIGWINCH)"

text \<open>
  \<^verbatim>\<open>_shocker_thread\<close>, after \<^verbatim>\<open>self._spawned_or_errored.wait()\<close>:
  \<^verbatim>\<open>
  while not self._died.wait(1):
      if self.execution_time > self._time or self.wall_clock_time > self._wall_time:
          log.warning('Shocker activated and killed %d', self.pid)
          self.kill()
          self._is_tle = True
          break
      try:
          os.killpg(self.pid, wake_signal)
      except OSError:
          pass
  \<close>
  The loop runs over the wakes it is given; when they run out, the thread is still
  waiting.
\<close>

datatype thread_state = Exited | Waiting

fun shocker_thread :: "bool \<Rightarrow> tracer \<Rightarrow> wake list \<Rightarrow> tracer \<times> effect list \<times> thread_state" where
  "shocker_thread freebsd t [] = (t, [], Waiting)"
| "shocker_thread freebsd t (w # ws) =
     (if w_died w then (t, [], Exited)
      else if w_execution_time w > self_time t \<or> w_wall_clock_time w > self_wall_time t then
        (t\<lparr>self_is_tle := True\<rparr>, LogWarning ''Shocker activated and killed'' # kill w, Exited)
      else
        (case shocker_thread freebsd t ws of
           (t', es, st) \<Rightarrow> (t', Killpg (wake_signal freebsd) # es, st)))"

text \<open>
  Two runs of the worker: one whose spawn raises \<^verbatim>\<open>RuntimeError('failed to spawn child')\<close>,
  and one whose spawn succeeds. The constructor arguments give a CPU limit of 2 seconds
  and the defaults for the streams.
\<close>

definition spawn_failure :: exn where
  "spawn_failure = Exn (ExcClass ''RuntimeError'' True) [''failed to spawn child'']"

definition failing_env :: worker_env where
  "failing_env =
     \<lparr> spawn_raises = Some spawn_failure, oom_score_adj_raises = False,
       monitor_returns = 0, execution_time_after = 0 \<rparr>"

definition working_env :: worker_env where
  "working_env =
     \<lparr> spawn_raises = None, oom_score_adj_raises = False,
       monitor_returns = 0, execution_time_after = 1 \<rparr>"

definition example_args :: args where
  "example_args =
     \<lparr> arg_security = Some example_security, arg_time = 2, arg_wall_time = None,
       stdin_is_pipe = True, stdout_is_pipe = True, stderr_is_pipe = False \<rparr>"

text \<open>
  Four wakes of the watchdog of \<open>example_tracer\<close> (limits 2 and 6 seconds): one past
  the CPU limit when the return code is already there, one within the limits at which
  \<^verbatim>\<open>os.killpg\<close> raises, one past the wall limit, and one with \<open>died\<close> set.
\<close>

definition late_wake :: wake where
  "late_wake =
     \<lparr> w_died = False, w_execution_time = 5 / 2, w_wall_clock_time = 3,
       w_returncode = Some 0, w_killpg_raises = False \<rparr>"

definition early_wake :: wake where
  "early_wake =
     \<lparr> w_died = False, w_execution_time = 1, w_wall_clock_time = 1,
       w_returncode = None, w_killpg_raises = True \<rparr>"

definition over_wake :: wake where
  "over_wake =
     \<lparr> w_died = False, w_execution_time = 1, w_wall_clock_time = 7,
       w_returncode = None, w_killpg_raises = False \<rparr>"

definition final_wake :: wake where
  "final_wake =
     \<lparr> w_died = True, w_execution_time = 1, w_wall_clock_time = 1,
       w_returncode = Some 0, w_killpg_raises = False \<rparr>"

text \<open>
  A tracee stopped on x86-64 with \<open>-4\<close> in the syscall register and 0 as first
  argument.
\<close>

definition negative_debugger :: debugger where
  "negative_debugger =
     example_debugger\<lparr>dbg_abi := PTBOX_ABI_X64, dbg_syscall := - 4, uarg0 := 0\<rparr>"

text \<open>
  A run of the worker whose spawn raises an exception of a class that cannot be built
  without arguments.
\<close>

definition unicode_failure :: exn where
  "unicode_failure =
     Exn (ExcClass ''UnicodeEncodeError'' False)
       [''utf-8'', ''argv'', ''0'', ''1'', ''surrogates not allowed'']"

definition unicode_env :: worker_env where
  "unicode_env =
     \<lparr> spawn_raises = Some unicode_failure, oom_score_adj_raises = False,
       monitor_returns = 0, execution_time_after = 0 \<rparr>"

section \<open>Theorems\<close>

text \<open>
  C8. For a CPU limit \<open>time > 0\<close>: when no \<open>wall_time\<close> is supplied the wall limit is
  \<open>3 * time\<close>, and the CPU hard cap is \<open>time + 5\<close>; when \<open>time\<close> is 0 the hard cap
  is 0. A supplied \<open>wall_time\<close> is kept as it is.
\<close>

theorem init_limits_defaults:
  "(0 < time \<longrightarrow>
      p_wall_time (init_limits time None) = 3 * time \<and>
      p_cpu_time (init_limits time wt) = time + 5) \<and>
   p_cpu_time (init_limits 0 wt) = 0 \<and>
   p_wall_time (init_limits time (Some w)) = w \<and>
   p_time (init_limits time wt) = time"
  by (simp add: init_limits_def)

theorem init_limits_defaults_witness:
  "0 < (2::real) \<and>
   p_wall_time (init_limits 2 None) = 6 \<and>
   p_cpu_time (init_limits 2 None) = 7 \<and>
   p_cpu_time (init_limits 0 None) = 0"
  using init_limits_defaults [of 2 None 0] by simp

text \<open>
  C9. The derived flags: \<open>is_mle\<close> holds iff a memory limit is set (the limit is not
  zero) and \<open>max_memory\<close> exceeds it; \<open>is_ir\<close> holds iff the return code is positive;
  \<open>is_rte\<close> holds iff the return code is null or negative.
\<close>

theorem result_flags:
  "(holds (is_mle s) \<longleftrightarrow> p_memory s \<noteq> 0 \<and> max_memory s > p_memory s) \<and>
   (holds (is_ir s) \<longleftrightarrow> (\<exists>r. returncode s = Some r \<and> r > 0)) \<and>
   (holds (is_rte s) \<longleftrightarrow> (returncode s = None \<or> (\<exists>r. returncode s = Some r \<and> r < 0)))"
  by (auto simp: holds_def is_mle_def is_ir_def is_rte_def split: option.splits)

lemma mask32: "(a::int) AND 0xFFFFFFFF = a mod 2 ^ 32"
proof -
  have m: "(0xFFFFFFFF::int) = mask 32" by (simp add: mask_eq_exp_minus_1)
  have "a AND 0xFFFFFFFF = a AND mask 32" by (simp only: m)
  also have "\<dots> = take_bit 32 a" by (simp only: take_bit_eq_mask)
  also have "\<dots> = a mod 2 ^ 32" by (simp only: take_bit_eq_mod)
  finally show ?thesis .
qed

lemma read_cstring_nul:
  "length s = k \<Longrightarrow> k < n \<Longrightarrow> (\<forall>j<k. mem (a + int j) = Some (s ! j) \<and> s ! j \<noteq> CHR 0x00) \<Longrightarrow>
   mem (a + int k) = Some (CHR 0x00) \<Longrightarrow> read_cstring mem a n = Some s"
proof (induction n arbitrary: a s k)
  case 0
  then show ?case by simp
next
  case (Suc n)
  show ?case
  proof (cases s)
    case Nil
    with Suc.prems show ?thesis by simp
  next
    case (Cons b t)
    with Suc.prems have b: "mem a = Some b" "b \<noteq> CHR 0x00" by force+
    have "read_cstring mem (a + 1) n = Some t"
    proof (rule Suc.IH [of t "length t"])
      show "length t = length t" by simp
      show "length t < n" using Suc.prems Cons by simp
      show "\<forall>j<length t. mem (a + 1 + int j) = Some (t ! j) \<and> t ! j \<noteq> CHR 0x00"
      proof (intro allI impI)
        fix j assume "j < length t"
        then have "Suc j < k" using Suc.prems Cons by simp
        with Suc.prems(3) have "mem (a + int (Suc j)) = Some (s ! Suc j) \<and> s ! Suc j \<noteq> CHR 0x00" by blast
        then show "mem (a + 1 + int j) = Some (t ! j) \<and> t ! j \<noteq> CHR 0x00"
          using Cons by (simp add: add.assoc)
      qed
      show "mem (a + 1 + int (length t)) = Some (CHR 0x00)"
      proof -
        have "int k = 1 + int (length t)" using Suc.prems(1) Cons by simp
        then show ?thesis using Suc.prems(4) by (simp add: add.assoc)
      qed
    qed
    with b Cons show ?thesis by simp
  qed
qed

lemma read_cstring_full:
  "length s = n \<Longrightarrow> (\<forall>j<n. mem (a + int j) = Some (s ! j) \<and> s ! j \<noteq> CHR 0x00) \<Longrightarrow>
   read_cstring mem a n = Some s"
proof (induction n arbitrary: a s)
  case 0
  then show ?case by simp
next
  case (Suc n)
  then obtain b t where Cons: "s = b # t" by (cases s) auto
  with Suc.prems have b: "mem a = Some b" "b \<noteq> CHR 0x00" by force+
  have "read_cstring mem (a + 1) n = Some t"
  proof (rule Suc.IH)
    show "length t = n" using Suc.prems Cons by simp
    show "\<forall>j<n. mem (a + 1 + int j) = Some (t ! j) \<and> t ! j \<noteq> CHR 0x00"
    proof (intro allI impI)
      fix j assume "j < n"
      then have "Suc j < Suc n" by simp
      with Suc.prems(2) have "mem (a + int (Suc j)) = Some (s ! Suc j) \<and> s ! Suc j \<noteq> CHR 0x00" by blast
      then show "mem (a + 1 + int j) = Some (t ! j) \<and> t ! j \<noteq> CHR 0x00"
        using Cons by (simp add: add.assoc)
    qed
  qed
  with b Cons show ?case by simp
qed

lemma read_cstring_unreadable:
  "k < n \<Longrightarrow> (\<forall>j<k. \<exists>b. mem (a + int j) = Some b \<and> b \<noteq> CHR 0x00) \<Longrightarrow>
   mem (a + int k) = None \<Longrightarrow> read_cstring mem a n = None"
proof (induction n arbitrary: a k)
  case 0
  then show ?case by simp
next
  case (Suc n)
  show ?case
  proof (cases k)
    case 0
    with Suc.prems show ?thesis by simp
  next
    case (Suc k')
    with Suc.prems(2) obtain b where b: "mem a = Some b" "b \<noteq> CHR 0x00" by force
    have "read_cstring mem (a + 1) n = None"
    proof (rule Suc.IH [of k'])
      show "k' < n" using Suc.prems Suc by simp
      show "\<forall>j<k'. \<exists>b. mem (a + 1 + int j) = Some b \<and> b \<noteq> CHR 0x00"
      proof (intro allI impI)
        fix j assume "j < k'"
        then have "Suc j < k" using Suc by simp
        with Suc.prems(2) have "\<exists>b. mem (a + int (Suc j)) = Some b \<and> b \<noteq> CHR 0x00" by blast
        then show "\<exists>b. mem (a + 1 + int j) = Some b \<and> b \<noteq> CHR 0x00" by (simp add: add.assoc)
      qed
      show "mem (a + 1 + int k') = None" using Suc.prems Suc by (simp add: add.assoc)
    qed
    with b show ?thesis by simp
  qed
qed


text \<open>
  C6. \<open>readstr\<close>: on a 32-bit ABI the address is first reduced to its low 32 bits
  (\<open>a\<close> is the address read from). The result is null when the base class's read
  there gives null, \<open>MaxLengthExceeded\<close> when it gives more than \<open>max_size\<close> bytes, and
  the decoded bytes otherwise. In terms of the tracee's memory: if a byte is unreadable
  before a NUL is found within the \<open>max_size + 1\<close> bytes read, the result is null; if
  none of the first \<open>max_size + 1\<close> bytes is NUL, the call fails with
  \<open>MaxLengthExceeded\<close>; otherwise the bytes before the first NUL, at most \<open>max_size\<close>
  of them, are passed to \<open>utf8text\<close> and its result is returned.
\<close>

theorem readstr_result:
  assumes a: "a = (if address_bits (dbg_abi d) = Some 32 then address mod 2 ^ 32 else address)"
  shows
    "readstr utf8text d address max_size =
       (case Debugger_readstr d a (max_size + 1) of
          None \<Rightarrow> Inr None
        | Some read \<Rightarrow>
            if length read > max_size then Inl (MaxLengthExceeded read)
            else (case utf8text read of Inl e \<Rightarrow> Inl e | Inr text \<Rightarrow> Inr (Some text))) \<and>
     (address_bits (dbg_abi d) = Some 32 \<longrightarrow>
        0 \<le> a \<and> a < 2 ^ 32 \<and>
        readstr utf8text d address max_size = readstr utf8text d a max_size) \<and>
     (k \<le> max_size \<and> (\<forall>j<k. \<exists>b. memory d (a + int j) = Some b \<and> b \<noteq> CHR 0x00) \<and>
        memory d (a + int k) = None \<longrightarrow>
        readstr utf8text d address max_size = Inr None) \<and>
     (length s = max_size + 1 \<and>
        (\<forall>j<length s. memory d (a + int j) = Some (s ! j) \<and> s ! j \<noteq> CHR 0x00) \<longrightarrow>
        readstr utf8text d address max_size = Inl (MaxLengthExceeded s)) \<and>
     (length t \<le> max_size \<and>
        (\<forall>j<length t. memory d (a + int j) = Some (t ! j) \<and> t ! j \<noteq> CHR 0x00) \<and>
        memory d (a + int (length t)) = Some (CHR 0x00) \<longrightarrow>
        readstr utf8text d address max_size =
          (case utf8text t of Inl e \<Rightarrow> Inl e | Inr text \<Rightarrow> Inr (Some text)))"
proof -
  have addr: "(if address_bits (dbg_abi d) = Some 32 then address AND 0xFFFFFFFF else address) = a"
    using a by (simp add: mask32)
  have unfolded: "readstr utf8text d address max_size =
      (case read_cstring (memory d) a (max_size + 1) of
         None \<Rightarrow> Inr None
       | Some read \<Rightarrow>
           if length read > max_size then Inl (MaxLengthExceeded read)
           else (case utf8text read of Inl e \<Rightarrow> Inl e | Inr text \<Rightarrow> Inr (Some text)))"
    unfolding readstr_def Debugger_readstr_def Let_def addr ..
  have masked: "address_bits (dbg_abi d) = Some 32 \<longrightarrow>
        0 \<le> a \<and> a < 2 ^ 32 \<and>
        readstr utf8text d address max_size = readstr utf8text d a max_size"
  proof
    assume w: "address_bits (dbg_abi d) = Some 32"
    then have "a = address mod 2 ^ 32" using a by simp
    then have r: "0 \<le> a" "a < 2 ^ 32" by simp_all
    then have "a mod 2 ^ 32 = a" by simp
    then have "readstr utf8text d a max_size = readstr utf8text d address max_size"
      using w a by (simp add: readstr_def mask32)
    with r show "0 \<le> a \<and> a < 2 ^ 32 \<and>
        readstr utf8text d address max_size = readstr utf8text d a max_size" by simp
  qed
  have unreadable: "k \<le> max_size \<and> (\<forall>j<k. \<exists>b. memory d (a + int j) = Some b \<and> b \<noteq> CHR 0x00) \<and>
        memory d (a + int k) = None \<longrightarrow>
        readstr utf8text d address max_size = Inr None"
  proof
    assume h: "k \<le> max_size \<and> (\<forall>j<k. \<exists>b. memory d (a + int j) = Some b \<and> b \<noteq> CHR 0x00) \<and>
        memory d (a + int k) = None"
    then have "read_cstring (memory d) a (max_size + 1) = None"
      by (intro read_cstring_unreadable [of k]) simp_all
    then show "readstr utf8text d address max_size = Inr None"
      by (simp add: unfolded)
  qed
  have too_long: "length s = max_size + 1 \<and>
        (\<forall>j<length s. memory d (a + int j) = Some (s ! j) \<and> s ! j \<noteq> CHR 0x00) \<longrightarrow>
        readstr utf8text d address max_size = Inl (MaxLengthExceeded s)"
  proof
    assume h: "length s = max_size + 1 \<and>
        (\<forall>j<length s. memory d (a + int j) = Some (s ! j) \<and> s ! j \<noteq> CHR 0x00)"
    then have "read_cstring (memory d) a (max_size + 1) = Some s"
      by (intro read_cstring_full) simp_all
    then show "readstr utf8text d address max_size = Inl (MaxLengthExceeded s)"
      using h by (simp add: unfolded)
  qed
  have terminated: "length t \<le> max_size \<and>
        (\<forall>j<length t. memory d (a + int j) = Some (t ! j) \<and> t ! j \<noteq> CHR 0x00) \<and>
        memory d (a + int (length t)) = Some (CHR 0x00) \<longrightarrow>
        readstr utf8text d address max_size =
          (case utf8text t of Inl e \<Rightarrow> Inl e | Inr text \<Rightarrow> Inr (Some text))"
  proof
    assume h: "length t \<le> max_size \<and>
        (\<forall>j<length t. memory d (a + int j) = Some (t ! j) \<and> t ! j \<noteq> CHR 0x00) \<and>
        memory d (a + int (length t)) = Some (CHR 0x00)"
    then have "read_cstring (memory d) a (max_size + 1) = Some t"
      by (intro read_cstring_nul [of t "length t"]) simp_all
    then show "readstr utf8text d address max_size =
          (case utf8text t of Inl e \<Rightarrow> Inl e | Inr text \<Rightarrow> Inr (Some text))"
      using h by (simp add: unfolded)
  qed
  have base: "readstr utf8text d address max_size =
       (case Debugger_readstr d a (max_size + 1) of
          None \<Rightarrow> Inr None
        | Some read \<Rightarrow>
            if length read > max_size then Inl (MaxLengthExceeded read)
            else (case utf8text read of Inl e \<Rightarrow> Inl e | Inr text \<Rightarrow> Inr (Some text)))"
    unfolding readstr_def Let_def addr ..
  from base masked unreadable too_long terminated show ?thesis by blast
qed

lemma nth_hi: "j < 2 \<Longrightarrow> example_memory (5 + int j) = Some (''hi'' ! j) \<and> ''hi'' ! j \<noteq> CHR 0x00"
  by (cases j) (auto simp: example_memory_def less_Suc_eq)

theorem readstr_result_witness:
  "address_bits (dbg_abi example_debugger) = Some 32 \<and>
   readstr Inr example_debugger 4294967301 2 = Inr (Some ''hi'') \<and>
   readstr Inr example_debugger 4294967301 1 = Inl (MaxLengthExceeded ''hi'') \<and>
   readstr Inr example_debugger 4294967304 4 = Inr None"
proof -
  have w: "address_bits (dbg_abi example_debugger) = Some 32"
    by (simp add: example_debugger_def)
  have m: "memory example_debugger = example_memory"
    by (simp add: example_debugger_def)
  have a5: "(5::int) = (if address_bits (dbg_abi example_debugger) = Some 32
                        then 4294967301 mod 2 ^ 32 else 4294967301)"
    by (simp add: w)
  have a8: "(8::int) = (if address_bits (dbg_abi example_debugger) = Some 32
                        then 4294967304 mod 2 ^ 32 else 4294967304)"
    by (simp add: w)
  have ok: "readstr Inr example_debugger 4294967301 2 = Inr (Some ''hi'')"
    using readstr_result [OF a5, where utf8text = Inr and max_size = 2 and t = "''hi''",
        THEN conjunct2, THEN conjunct2, THEN conjunct2, THEN conjunct2] nth_hi
    by (simp add: m example_memory_def)
  have long: "readstr Inr example_debugger 4294967301 1 = Inl (MaxLengthExceeded ''hi'')"
    using readstr_result [OF a5, where utf8text = Inr and max_size = 1 and s = "''hi''",
        THEN conjunct2, THEN conjunct2, THEN conjunct2, THEN conjunct1] nth_hi
    by (simp add: m example_memory_def)
  have null: "readstr Inr example_debugger 4294967304 4 = Inr None"
    using readstr_result [OF a8, where utf8text = Inr and max_size = 4 and k = 0,
        THEN conjunct2, THEN conjunct2, THEN conjunct1]
    by (simp add: m example_memory_def)
  from w ok long null show ?thesis by simp
qed

lemma whitelist_calls:
  "(\<forall>c. Some c \<in> set cs \<longrightarrow> c < length wl) \<Longrightarrow>
   \<exists>wl'. for_each (whitelist_call cfg h) cs wl = Inr wl' \<and> length wl' = length wl \<and>
     (\<forall>n<length wl. wl' ! n =
        (if (\<exists>v. h = HInt v) \<and> Some n \<in> set cs then h = HInt (ALLOW cfg) else wl ! n))"
proof (induction cs arbitrary: wl)
  case Nil
  then show ?case by simp
next
  case (Cons c cs)
  show ?case
  proof (cases "\<exists>call v. c = Some call \<and> h = HInt v")
    case True
    then obtain call v where c: "c = Some call" and h: "h = HInt v" by blast
    have lt: "call < length wl" using Cons.prems c by simp
    let ?w = "wl[call := (v = ALLOW cfg)]"
    have step: "whitelist_call cfg h c wl = Inr ?w"
      using c h lt by (simp add: whitelist_call_def)
    have "\<forall>c. Some c \<in> set cs \<longrightarrow> c < length ?w" using Cons.prems by simp
    from Cons.IH [OF this] obtain wl' where
      r: "for_each (whitelist_call cfg h) cs ?w = Inr wl'" "length wl' = length ?w"
      and v: "\<forall>n<length ?w. wl' ! n =
        (if (\<exists>v. h = HInt v) \<and> Some n \<in> set cs then h = HInt (ALLOW cfg) else ?w ! n)"
      by blast
    have "\<forall>n<length wl. wl' ! n =
        (if (\<exists>v. h = HInt v) \<and> Some n \<in> set (c # cs) then h = HInt (ALLOW cfg) else wl ! n)"
    proof (intro allI impI)
      fix n assume n: "n < length wl"
      then have "wl' ! n = (if Some n \<in> set cs then v = ALLOW cfg else ?w ! n)"
        using v h by simp
      then show "wl' ! n =
        (if (\<exists>v. h = HInt v) \<and> Some n \<in> set (c # cs) then h = HInt (ALLOW cfg) else wl ! n)"
        using c h n lt by (cases "n = call") auto
    qed
    with r step show ?thesis by simp
  next
    case False
    then have step: "whitelist_call cfg h c wl = Inr wl"
      by (cases c; cases h) (simp_all add: whitelist_call_def)
    have "\<forall>c. Some c \<in> set cs \<longrightarrow> c < length wl" using Cons.prems by simp
    from Cons.IH [OF this] obtain wl' where
      r: "for_each (whitelist_call cfg h) cs wl = Inr wl'" "length wl' = length wl"
      and v: "\<forall>n<length wl. wl' ! n =
        (if (\<exists>v. h = HInt v) \<and> Some n \<in> set cs then h = HInt (ALLOW cfg) else wl ! n)"
      by blast
    have "\<forall>n<length wl. wl' ! n =
        (if (\<exists>v. h = HInt v) \<and> Some n \<in> set (c # cs) then h = HInt (ALLOW cfg) else wl ! n)"
      using v False by auto
    with r step show ?thesis by simp
  qed
qed

lemma whitelist_syscall_effect:
  assumes "\<forall>c. Some c \<in> set (translator cfg i ix) \<longrightarrow> c < length wl"
  shows "\<exists>wl'. whitelist_syscall cfg security ix i wl = Inr wl' \<and> length wl' = length wl \<and>
     (\<forall>n<length wl. wl' ! n =
        (if whitelist_writes cfg security ix i n
         then security_get cfg security i = HInt (ALLOW cfg) else wl ! n))"
proof (cases "i = sys_exit cfg \<or> i = sys_exit_group cfg")
  case True
  then show ?thesis by (auto simp: whitelist_syscall_def whitelist_writes_def)
next
  case False
  from whitelist_calls [OF assms, of cfg "security_get cfg security i"] False
  show ?thesis by (simp add: whitelist_syscall_def whitelist_writes_def)
qed

lemma whitelist_syscalls:
  assumes "\<forall>i\<in>set js. \<forall>c. Some c \<in> set (translator cfg i ix) \<longrightarrow> c < length wl"
    and "n < length wl"
    and "\<forall>i\<in>set js. \<forall>j\<in>set js.
           whitelist_writes cfg security ix i n \<and> whitelist_writes cfg security ix j n \<longrightarrow> i = j"
  shows "\<exists>wl'. for_each (whitelist_syscall cfg security ix) js wl = Inr wl' \<and>
     length wl' = length wl \<and>
     wl' ! n =
        (if \<exists>i\<in>set js. whitelist_writes cfg security ix i n
         then \<exists>i\<in>set js. whitelist_writes cfg security ix i n \<and>
                security_get cfg security i = HInt (ALLOW cfg)
         else wl ! n)"
  using assms
proof (induction js arbitrary: wl)
  case Nil
  then show ?case by simp
next
  case (Cons j js)
  have "\<forall>c. Some c \<in> set (translator cfg j ix) \<longrightarrow> c < length wl" using Cons.prems(1) by simp
  from whitelist_syscall_effect [OF this, of security] obtain w where
    step: "whitelist_syscall cfg security ix j wl = Inr w" and len: "length w = length wl"
    and eff: "\<forall>n<length wl. w ! n =
        (if whitelist_writes cfg security ix j n
         then security_get cfg security j = HInt (ALLOW cfg) else wl ! n)"
    by blast
  have p1: "\<forall>i\<in>set js. \<forall>c. Some c \<in> set (translator cfg i ix) \<longrightarrow> c < length w"
    using Cons.prems(1) len by simp
  have p2: "n < length w" using Cons.prems(2) len by simp
  have p3: "\<forall>i\<in>set js. \<forall>k\<in>set js.
           whitelist_writes cfg security ix i n \<and> whitelist_writes cfg security ix k n \<longrightarrow> i = k"
    using Cons.prems(3) by simp
  from Cons.IH [OF p1 p2 p3] obtain wl' where
    r: "for_each (whitelist_syscall cfg security ix) js w = Inr wl'" "length wl' = length w"
    and v: "wl' ! n =
        (if \<exists>i\<in>set js. whitelist_writes cfg security ix i n
         then \<exists>i\<in>set js. whitelist_writes cfg security ix i n \<and>
                security_get cfg security i = HInt (ALLOW cfg)
         else w ! n)"
    by blast
  have wn: "w ! n = (if whitelist_writes cfg security ix j n
         then security_get cfg security j = HInt (ALLOW cfg) else wl ! n)"
    using eff Cons.prems(2) by simp
  have uniq: "\<And>i. i \<in> set js \<Longrightarrow> whitelist_writes cfg security ix i n \<Longrightarrow>
                  whitelist_writes cfg security ix j n \<Longrightarrow> i = j"
    using Cons.prems(3) by simp
  have "wl' ! n =
        (if \<exists>i\<in>set (j # js). whitelist_writes cfg security ix i n
         then \<exists>i\<in>set (j # js). whitelist_writes cfg security ix i n \<and>
                security_get cfg security i = HInt (ALLOW cfg)
         else wl ! n)"
  proof (cases "\<exists>i\<in>set js. whitelist_writes cfg security ix i n")
    case True
    then obtain i where i: "i \<in> set js" "whitelist_writes cfg security ix i n" by blast
    show ?thesis
    proof (cases "whitelist_writes cfg security ix j n")
      case True
      with i uniq have "i = j" by blast
      with v i True show ?thesis by auto
    next
      case False
      with v i show ?thesis by auto
    qed
  next
    case False
    with v wn show ?thesis by auto
  qed
  with step r len show ?case by simp
qed


lemma whitelist_syscalls_total:
  assumes "\<forall>i\<in>set js. \<forall>c. Some c \<in> set (translator cfg i ix) \<longrightarrow> c < length wl"
  shows "\<exists>wl'. for_each (whitelist_syscall cfg security ix) js wl = Inr wl' \<and>
     length wl' = length wl"
  using assms
proof (induction js arbitrary: wl)
  case Nil
  then show ?case by simp
next
  case (Cons j js)
  have "\<forall>c. Some c \<in> set (translator cfg j ix) \<longrightarrow> c < length wl" using Cons.prems by simp
  from whitelist_syscall_effect [OF this, of security] obtain w where
    step: "whitelist_syscall cfg security ix j wl = Inr w" and len: "length w = length wl"
    by blast
  have "\<forall>i\<in>set js. \<forall>c. Some c \<in> set (translator cfg i ix) \<longrightarrow> c < length w"
    using Cons.prems len by simp
  from Cons.IH [OF this] step len show ?case by simp
qed

text \<open>
  C2. Where the native column of the table holds numbers below \<open>MAX_SYSCALL_NUMBER\<close>
  and gives each native number to one canonical syscall, \<open>get_seccomp_whitelist\<close>
  returns a list of \<open>MAX_SYSCALL_NUMBER\<close> entries. The entry of a native number is
  true iff the number belongs to a canonical syscall other than exit and exit_group
  whose handler (\<open>security.get(i, DISALLOW)\<close>) is the integer \<open>ALLOW\<close>. The entries of
  the native numbers of exit and exit_group are false, whatever the security map.
\<close>

theorem seccomp_whitelist_entries:
  assumes native: "SYSCALL_INDICIES (NATIVE_ABI cfg) = Some ix"
    and range: "numbers_in_range cfg ix"
    and one: "one_canonical cfg ix"
    and exits: "sys_exit cfg < SYSCALL_COUNT cfg" "sys_exit_group cfg < SYSCALL_COUNT cfg"
  shows "\<exists>whitelist. get_seccomp_whitelist cfg security = Inr whitelist \<and>
     length whitelist = MAX_SYSCALL_NUMBER cfg \<and>
     (\<forall>n<MAX_SYSCALL_NUMBER cfg.
        whitelist ! n \<longleftrightarrow>
          (\<exists>i<SYSCALL_COUNT cfg. i \<noteq> sys_exit cfg \<and> i \<noteq> sys_exit_group cfg \<and>
             Some n \<in> set (translator cfg i ix) \<and>
             security_get cfg security i = HInt (ALLOW cfg))) \<and>
     (\<forall>n<MAX_SYSCALL_NUMBER cfg.
        Some n \<in> set (translator cfg (sys_exit cfg) ix) \<or>
        Some n \<in> set (translator cfg (sys_exit_group cfg) ix) \<longrightarrow> \<not> whitelist ! n)"
proof -
  let ?w0 = "replicate (MAX_SYSCALL_NUMBER cfg) False"
  let ?js = "[0..<SYSCALL_COUNT cfg]"
  have r: "\<forall>i\<in>set ?js. \<forall>c. Some c \<in> set (translator cfg i ix) \<longrightarrow> c < length ?w0"
    using range by (simp add: numbers_in_range_def)
  from whitelist_syscalls_total [OF r, of security] obtain wl where
    wl: "for_each (whitelist_syscall cfg security ix) ?js ?w0 = Inr wl"
    and len: "length wl = MAX_SYSCALL_NUMBER cfg"
    by auto
  have res: "get_seccomp_whitelist cfg security = Inr wl"
    using native wl by (simp add: get_seccomp_whitelist_def)
  have entry: "wl ! n \<longleftrightarrow>
          (\<exists>i<SYSCALL_COUNT cfg. i \<noteq> sys_exit cfg \<and> i \<noteq> sys_exit_group cfg \<and>
             Some n \<in> set (translator cfg i ix) \<and>
             security_get cfg security i = HInt (ALLOW cfg))"
    if n: "n < MAX_SYSCALL_NUMBER cfg" for n
  proof -
    have n': "n < length ?w0" using n by simp
    have u: "\<forall>i\<in>set ?js. \<forall>j\<in>set ?js.
           whitelist_writes cfg security ix i n \<and> whitelist_writes cfg security ix j n \<longrightarrow> i = j"
    proof (intro ballI impI)
      fix i j
      assume "i \<in> set ?js" "j \<in> set ?js"
        and "whitelist_writes cfg security ix i n \<and> whitelist_writes cfg security ix j n"
      then have "i < SYSCALL_COUNT cfg" "j < SYSCALL_COUNT cfg"
        "Some n \<in> set (translator cfg i ix)" "Some n \<in> set (translator cfg j ix)"
        by (simp_all add: whitelist_writes_def)
      with one show "i = j" unfolding one_canonical_def by blast
    qed
    from whitelist_syscalls [OF r n' u] wl
    have "wl ! n =
        (if \<exists>i\<in>set ?js. whitelist_writes cfg security ix i n
         then \<exists>i\<in>set ?js. whitelist_writes cfg security ix i n \<and>
                security_get cfg security i = HInt (ALLOW cfg)
         else ?w0 ! n)"
      by auto
    then show ?thesis using n unfolding whitelist_writes_def by auto
  qed
  have forced: "\<not> wl ! n"
    if n: "n < MAX_SYSCALL_NUMBER cfg"
      and e: "Some n \<in> set (translator cfg (sys_exit cfg) ix) \<or>
              Some n \<in> set (translator cfg (sys_exit_group cfg) ix)" for n
  proof
    assume "wl ! n"
    with entry [OF n] obtain i where i: "i < SYSCALL_COUNT cfg" "i \<noteq> sys_exit cfg"
      "i \<noteq> sys_exit_group cfg" "Some n \<in> set (translator cfg i ix)" by blast
    from e show False
    proof
      assume "Some n \<in> set (translator cfg (sys_exit cfg) ix)"
      with one i exits have "i = sys_exit cfg" unfolding one_canonical_def by blast
      with i show False by simp
    next
      assume "Some n \<in> set (translator cfg (sys_exit_group cfg) ix)"
      with one i exits have "i = sys_exit_group cfg" unfolding one_canonical_def by blast
      with i show False by simp
    qed
  qed
  from res len entry forced show ?thesis by blast
qed

lemma example_one_canonical: "one_canonical example_config ix"
  by (auto simp: one_canonical_def example_config_def split: if_splits)

lemma example_numbers_in_range: "numbers_in_range example_config ix"
  by (auto simp: numbers_in_range_def example_config_def split: if_splits)

theorem seccomp_whitelist_entries_witness:
  "SYSCALL_INDICIES (NATIVE_ABI example_config) = Some 1 \<and>
   numbers_in_range example_config 1 \<and> one_canonical example_config 1 \<and>
   sys_exit example_config < SYSCALL_COUNT example_config \<and>
   sys_exit_group example_config < SYSCALL_COUNT example_config \<and>
   (\<exists>whitelist. get_seccomp_whitelist example_config example_security = Inr whitelist \<and>
      length whitelist = 8 \<and> whitelist ! 3 \<and> \<not> whitelist ! 4 \<and> \<not> whitelist ! 1)"
proof -
  have n: "SYSCALL_INDICIES (NATIVE_ABI example_config) = Some 1"
    by (simp add: example_config_def)
  have e: "sys_exit example_config < SYSCALL_COUNT example_config"
    "sys_exit_group example_config < SYSCALL_COUNT example_config"
    by (simp_all add: example_config_def)
  from seccomp_whitelist_entries [OF n example_numbers_in_range example_one_canonical e,
      of example_security]
  obtain wl where wl: "get_seccomp_whitelist example_config example_security = Inr wl"
    "length wl = MAX_SYSCALL_NUMBER example_config"
    and entry: "\<forall>n<MAX_SYSCALL_NUMBER example_config.
        wl ! n \<longleftrightarrow>
          (\<exists>i<SYSCALL_COUNT example_config. i \<noteq> sys_exit example_config \<and>
             i \<noteq> sys_exit_group example_config \<and>
             Some n \<in> set (translator example_config i 1) \<and>
             security_get example_config example_security i = HInt (ALLOW example_config))"
    and forced: "\<forall>n<MAX_SYSCALL_NUMBER example_config.
        Some n \<in> set (translator example_config (sys_exit example_config) 1) \<or>
        Some n \<in> set (translator example_config (sys_exit_group example_config) 1) \<longrightarrow>
        \<not> wl ! n"
    by blast
  have "wl ! 3"
  proof -
    have "\<exists>i<SYSCALL_COUNT example_config. i \<noteq> sys_exit example_config \<and>
             i \<noteq> sys_exit_group example_config \<and>
             Some 3 \<in> set (translator example_config i 1) \<and>
             security_get example_config example_security i = HInt (ALLOW example_config)"
      by (rule exI [of _ 0]) (simp add: example_config_def example_security_def security_get_def)
    moreover have "3 < MAX_SYSCALL_NUMBER example_config" by (simp add: example_config_def)
    ultimately show ?thesis using entry by blast
  qed
  moreover have "\<not> wl ! 4"
  proof -
    have "\<not> (\<exists>i<SYSCALL_COUNT example_config. i \<noteq> sys_exit example_config \<and>
             i \<noteq> sys_exit_group example_config \<and>
             Some 4 \<in> set (translator example_config i 1) \<and>
             security_get example_config example_security i = HInt (ALLOW example_config))"
      by (auto simp: example_config_def example_security_def security_get_def split: if_splits)
    moreover have "4 < MAX_SYSCALL_NUMBER example_config" by (simp add: example_config_def)
    ultimately show ?thesis using entry by blast
  qed
  moreover have "\<not> wl ! 1"
  proof -
    have "Some 1 \<in> set (translator example_config (sys_exit example_config) 1)"
      by (simp add: example_config_def)
    moreover have "1 < MAX_SYSCALL_NUMBER example_config" by (simp add: example_config_def)
    ultimately show ?thesis using forced by blast
  qed
  moreover have "length wl = 8" using wl by (simp add: example_config_def)
  ultimately show ?thesis
    using n e example_numbers_in_range example_one_canonical wl by blast
qed

text \<open>
  C4, as stated: after a syscall reported as \<open>-1\<close> the recorded fault carries the last
  ptrace errno. It does not: with errno 3 stored, the fourth component is \<open>None\<close>.
\<close>

theorem ptrace_fail_errno_counterexample:
  "self_last_ptrace_errno example_tracer = Some 3 \<and>
   (case protection_fault example_config example_errorcode failed_debugger example_tracer (- 1) False of
      Inl e \<Rightarrow> None
    | Inr t' \<Rightarrow> self_protection_fault t') = Some (- 1, ''ptrace fail'', [0, 0, 0, 0, 0, 0], None) \<and>
   (case protection_fault example_config example_errorcode failed_debugger example_tracer (- 1) False of
      Inl e \<Rightarrow> None
    | Inr t' \<Rightarrow> self_protection_fault t') \<noteq>
     Some (- 1, ''ptrace fail'', [0, 0, 0, 0, 0, 0], self_last_ptrace_errno example_tracer)"
  by (simp add: protection_fault_def example_tracer_def example_errorcode_def numeral_eq_Suc)

text \<open>
  C4, amended. When the syscall is reported as \<open>-1\<close> (and the stored errno, if any, has a
  name in \<open>errno.errorcode\<close>), \<open>protection_fault\<close> records
  \<open>(-1, ''ptrace fail'', [0, 0, 0, 0, 0, 0], None)\<close>, whatever \<open>is_update\<close> is: the last
  ptrace errno is logged and not stored. The monitor step records that fault and
  terminates the tracee; it does not continue it.
\<close>

theorem ptrace_fail_recorded:
  assumes "dbg_syscall d = - 1"
    and "self_last_ptrace_errno t = None \<or>
         (\<exists>err name. self_last_ptrace_errno t = Some err \<and> errorcode err = Some name)"
  shows "\<exists>t'. protection_fault cfg errorcode d t (- 1) is_update = Inr t' \<and>
     t' = t\<lparr>self_protection_fault := Some (- 1, ''ptrace fail'', [0, 0, 0, 0, 0, 0], None)\<rparr> \<and>
     self_protection_fault t' = Some (- 1, ''ptrace fail'', [0, 0, 0, 0, 0, 0], None) \<and>
     monitor_syscall_entry cfg errorcode p d t = Inr (t', Terminated) \<and>
     monitor_syscall_entry cfg errorcode p d t \<noteq> Inr (t', Continued)"
  using assms
  by (auto simp: protection_fault_def monitor_syscall_entry_def numeral_eq_Suc)

theorem ptrace_fail_recorded_witness:
  "dbg_syscall failed_debugger = - 1 \<and>
   self_last_ptrace_errno example_tracer = Some 3 \<and> example_errorcode 3 = Some ''ESRCH'' \<and>
   (\<exists>t'. protection_fault example_config example_errorcode failed_debugger example_tracer (- 1) True
           = Inr t' \<and>
      self_protection_fault t' = Some (- 1, ''ptrace fail'', [0, 0, 0, 0, 0, 0], None) \<and>
      monitor_syscall_entry example_config example_errorcode
        (initial_policy example_config) failed_debugger example_tracer
        = Inr (t', Terminated))"
proof -
  have s: "dbg_syscall failed_debugger = - 1"
    by (simp add: failed_debugger_def)
  have e: "self_last_ptrace_errno example_tracer = Some 3" "example_errorcode 3 = Some ''ESRCH''"
    by (simp_all add: example_tracer_def example_errorcode_def)
  then have h: "self_last_ptrace_errno example_tracer = None \<or>
         (\<exists>err name. self_last_ptrace_errno example_tracer = Some err \<and>
            example_errorcode err = Some name)"
    by simp
  from ptrace_fail_recorded [OF s h, of example_config True
      "initial_policy example_config"] s e
  show ?thesis by blast
qed

text \<open>Loop invariants for \<open>for_each\<close>, and for the nested loops of the policy installation.\<close>

lemma for_each_invariant:
  assumes "for_each body xs s = Inr s'" and "P s"
    and "\<And>x s s'. x \<in> set xs \<Longrightarrow> P s \<Longrightarrow> body x s = Inr s' \<Longrightarrow> P s'"
  shows "P s'"
  using assms
proof (induction xs arbitrary: s)
  case Nil
  then show ?case by simp
next
  case (Cons x xs)
  from Cons.prems(1) obtain s1 where s1: "body x s = Inr s1" "for_each body xs s1 = Inr s'"
    by (auto split: sum.splits)
  have "P s1" using Cons.prems(3) [of x s s1] Cons.prems(2) s1(1) by simp
  moreover have "\<And>y t t'. y \<in> set xs \<Longrightarrow> P t \<Longrightarrow> body y t = Inr t' \<Longrightarrow> P t'"
    using Cons.prems(3) by (meson list.set_intros(2))
  ultimately show ?case using Cons.IH [OF s1(2)] by blast
qed

lemma for_each_establishes:
  assumes "for_each body xs s = Inr s'" and "x \<in> set xs"
    and "\<And>s s'. body x s = Inr s' \<Longrightarrow> R s'"
    and "\<And>y s s'. y \<in> set xs \<Longrightarrow> R s \<Longrightarrow> body y s = Inr s' \<Longrightarrow> R s'"
  shows "R s'"
  using assms
proof (induction xs arbitrary: s)
  case Nil
  then show ?case by simp
next
  case (Cons y ys)
  from Cons.prems(1) obtain s1 where s1: "body y s = Inr s1" "for_each body ys s1 = Inr s'"
    by (auto split: sum.splits)
  have keep: "\<And>z t t'. z \<in> set ys \<Longrightarrow> R t \<Longrightarrow> body z t = Inr t' \<Longrightarrow> R t'"
    using Cons.prems(4) by (meson list.set_intros(2))
  show ?case
  proof (cases "x = y")
    case True
    then have "R s1" using Cons.prems(3) s1(1) by simp
    then show ?thesis using for_each_invariant [OF s1(2), of R] keep by blast
  next
    case False
    then have "x \<in> set ys" using Cons.prems(2) by simp
    then show ?thesis using Cons.IH [OF s1(2)] Cons.prems(3) keep by blast
  qed
qed

lemma for_each_visits:
  assumes "for_each body xs s = Inr s'" and "x \<in> set xs"
  shows "\<exists>s1 s2. body x s1 = Inr s2"
  using assms
proof (induction xs arbitrary: s)
  case Nil
  then show ?case by simp
next
  case (Cons y ys)
  from Cons.prems(1) obtain s1 where s1: "body y s = Inr s1" "for_each body ys s1 = Inr s'"
    by (auto split: sum.splits)
  show ?case
  proof (cases "x = y")
    case True
    with s1(1) show ?thesis by blast
  next
    case False
    then have "x \<in> set ys" using Cons.prems(2) by simp
    with Cons.IH [OF s1(2)] show ?thesis by simp
  qed
qed

lemma install_syscall_invariant:
  assumes run: "install_syscall cfg security a ix i q = Inr q'" and start: "P q"
    and step: "\<And>c q q'. c \<in> set (translator cfg i ix) \<Longrightarrow> P q \<Longrightarrow>
         install_call cfg security a i c q = Inr q' \<Longrightarrow> P q'"
  shows "P q'"
proof -
  from run have "for_each (install_call cfg security a i) (translator cfg i ix) q = Inr q'"
    by (simp add: install_syscall_def)
  then show ?thesis using start step by (rule for_each_invariant)
qed

lemma install_abi_invariant:
  assumes run: "install_abi cfg security a q = Inr q'" and start: "P q"
    and step: "\<And>ix i c q q'. SYSCALL_INDICIES a = Some ix \<Longrightarrow>
         i < SYSCALL_COUNT cfg \<Longrightarrow> c \<in> set (translator cfg i ix) \<Longrightarrow> P q \<Longrightarrow>
         install_call cfg security a i c q = Inr q' \<Longrightarrow> P q'"
  shows "P q'"
proof -
  from run obtain ix where ix: "SYSCALL_INDICIES a = Some ix"
    and l: "for_each (install_syscall cfg security a ix) [0..<SYSCALL_COUNT cfg] q = Inr q'"
    by (auto simp: install_abi_def split: option.splits)
  have "P t'" if "i \<in> set [0..<SYSCALL_COUNT cfg]" "P t"
    "install_syscall cfg security a ix i t = Inr t'" for i t t'
  proof (rule install_syscall_invariant [where P = P, OF that(3) that(2)])
    fix c u u'
    assume "c \<in> set (translator cfg i ix)" "P u" "install_call cfg security a i c u = Inr u'"
    moreover have "i < SYSCALL_COUNT cfg" using that(1) by simp
    ultimately show "P u'" using step [OF ix] by blast
  qed
  with l start show ?thesis by (rule for_each_invariant)
qed

lemma install_policy_invariant:
  assumes run: "install_policy cfg security p = Inr p'" and start: "P p"
    and step: "\<And>a ix i c q q'. a \<in> set (SUPPORTED_ABIS cfg) \<Longrightarrow> SYSCALL_INDICIES a = Some ix \<Longrightarrow>
         i < SYSCALL_COUNT cfg \<Longrightarrow> c \<in> set (translator cfg i ix) \<Longrightarrow> P q \<Longrightarrow>
         install_call cfg security a i c q = Inr q' \<Longrightarrow> P q'"
  shows "P p'"
proof -
  from run have l: "for_each (install_abi cfg security) (SUPPORTED_ABIS cfg) p = Inr p'"
    by (simp add: install_policy_def)
  have "P t'" if "a \<in> set (SUPPORTED_ABIS cfg)" "P t" "install_abi cfg security a t = Inr t'"
    for a t t'
    by (rule install_abi_invariant [where P = P, OF that(3) that(2)]) (rule step [OF that(1)])
  with l start show ?thesis by (rule for_each_invariant)
qed

lemma install_policy_establishes:
  assumes run: "install_policy cfg security p = Inr p'"
    and a0: "a0 \<in> set (SUPPORTED_ABIS cfg)" and ix0: "SYSCALL_INDICIES a0 = Some ix0"
    and i0: "i0 < SYSCALL_COUNT cfg" and c0: "c0 \<in> set (translator cfg i0 ix0)"
    and est: "\<And>q q'. install_call cfg security a0 i0 c0 q = Inr q' \<Longrightarrow> R q'"
    and step: "\<And>a ix i c q q'. a \<in> set (SUPPORTED_ABIS cfg) \<Longrightarrow> SYSCALL_INDICIES a = Some ix \<Longrightarrow>
         i < SYSCALL_COUNT cfg \<Longrightarrow> c \<in> set (translator cfg i ix) \<Longrightarrow> R q \<Longrightarrow>
         install_call cfg security a i c q = Inr q' \<Longrightarrow> R q'"
  shows "R p'"
proof -
  have abi: "R t'" if "a \<in> set (SUPPORTED_ABIS cfg)" "R t" "install_abi cfg security a t = Inr t'"
    for a t t'
    by (rule install_abi_invariant [where P = R, OF that(3) that(2)]) (rule step [OF that(1)])
  have syscall: "R t'" if "i \<in> set [0..<SYSCALL_COUNT cfg]" "R t"
    "install_syscall cfg security a0 ix0 i t = Inr t'" for i t t'
  proof (rule install_syscall_invariant [where P = R, OF that(3) that(2)])
    fix c u u'
    assume "c \<in> set (translator cfg i ix0)" "R u" "install_call cfg security a0 i c u = Inr u'"
    moreover have "i < SYSCALL_COUNT cfg" using that(1) by simp
    ultimately show "R u'" using step [OF a0 ix0] by blast
  qed
  have syscall0: "R t'" if r: "install_syscall cfg security a0 ix0 i0 t = Inr t'" for t t'
  proof -
    from r have "for_each (install_call cfg security a0 i0) (translator cfg i0 ix0) t = Inr t'"
      by (simp add: install_syscall_def)
    then show ?thesis using c0 est
    proof (rule for_each_establishes)
      fix y u u'
      assume "y \<in> set (translator cfg i0 ix0)" "R u" "install_call cfg security a0 i0 y u = Inr u'"
      then show "R u'" using step [OF a0 ix0 i0] by blast
    qed
  qed
  have abi0: "R t'" if r: "install_abi cfg security a0 t = Inr t'" for t t'
  proof -
    from r ix0
    have l: "for_each (install_syscall cfg security a0 ix0) [0..<SYSCALL_COUNT cfg] t = Inr t'"
      by (simp add: install_abi_def)
    have m: "i0 \<in> set [0..<SYSCALL_COUNT cfg]" using i0 by simp
    from l m syscall0 syscall show ?thesis by (rule for_each_establishes)
  qed
  from run have "for_each (install_abi cfg security) (SUPPORTED_ABIS cfg) p = Inr p'"
    by (simp add: install_policy_def)
  then show ?thesis using a0 abi0 abi by (rule for_each_establishes)
qed

lemma install_call_length:
  assumes "install_call cfg security a' i c q = Inr q'"
  shows "length (callbacks q' b) = length (callbacks q b)"
  using assms
  by (auto simp: install_call_def call_handler_def split: option.splits handler.splits if_splits)

lemma install_call_slot:
  assumes "install_call cfg security a' i c q = Inr q'"
    and "a' = a \<and> c = Some n \<longrightarrow> security i = None"
  shows "n < length (callbacks q a) \<and> callbacks q a ! n = None \<longrightarrow> callbacks q' a ! n = None"
    and "(\<forall>h. (a, n, h) \<in> set (handler_calls q) \<longrightarrow> h = DISALLOW cfg) \<longrightarrow>
         (\<forall>h. (a, n, h) \<in> set (handler_calls q') \<longrightarrow> h = DISALLOW cfg)"
    and "(a, n, DISALLOW cfg) \<in> set (handler_calls q) \<longrightarrow>
         (a, n, DISALLOW cfg) \<in> set (handler_calls q')"
    and "a' = a \<and> c = Some n \<longrightarrow> (a, n, DISALLOW cfg) \<in> set (handler_calls q')"
  using assms
  by (auto simp: install_call_def call_handler_def security_get_def
      split: option.splits handler.splits if_splits)

lemma install_policy_length:
  assumes "install_policy cfg security (initial_policy cfg) = Inr p"
  shows "length (callbacks p b) = MAX_SYSCALL_NUMBER cfg"
proof (rule install_policy_invariant
    [where P = "\<lambda>q. length (callbacks q b) = MAX_SYSCALL_NUMBER cfg", OF assms])
  show "length (callbacks (initial_policy cfg) b) = MAX_SYSCALL_NUMBER cfg"
    by (simp add: initial_policy_def)
next
  fix a ix i c q q'
  assume "length (callbacks q b) = MAX_SYSCALL_NUMBER cfg"
    "install_call cfg security a i c q = Inr q'"
  then show "length (callbacks q' b) = MAX_SYSCALL_NUMBER cfg"
    using install_call_length [of cfg security a i c q q' b] by simp
qed

lemma callback_out_of_range:
  assumes "int (length (callbacks p (dbg_abi d))) \<le> syscall \<or>
           syscall < - int (length (callbacks p (dbg_abi d)))"
  shows "callback p d syscall \<longleftrightarrow>
           dbg_abi d = PTBOX_ABI_ARM \<and> 0xF0000 < syscall \<and> syscall < 0xF0006"
proof -
  have "py_index (callbacks p (dbg_abi d)) syscall = None"
    using assms by (auto simp: py_index_def)
  then show ?thesis by (auto simp: callback_def)
qed

lemma callback_empty_slot:
  assumes "n < length (callbacks p (dbg_abi d))" and "callbacks p (dbg_abi d) ! n = None"
  shows "\<not> callback p d (int n)"
proof -
  have "py_index (callbacks p (dbg_abi d)) (int n) = Some None"
    using assms by (simp add: py_index_def)
  then show ?thesis by (simp add: callback_def)
qed

text \<open>
  What holds of the verdict. Let \<open>p\<close> be the policy that \<open>__init__\<close> installs for a
  security map. (1) If
  the map has no entry for any canonical syscall that lists the native number \<open>n\<close> of a
  supported ABI, the handler passed to \<open>_handler\<close> for \<open>n\<close> is \<open>DISALLOW\<close> (such a call
  is made, and no call for \<open>n\<close> passes another handler) and the verdict of \<open>callback\<close>
  for \<open>n\<close> is false. (2) For a syscall number outside the table (the
  list index raises \<open>IndexError\<close>: the number is at least \<open>MAX_SYSCALL_NUMBER\<close>, or
  below \<open>- MAX_SYSCALL_NUMBER\<close>) the verdict is true exactly on the ARM ABI for numbers
  strictly between \<open>0xF0000\<close> and \<open>0xF0006\<close>, and false otherwise, whatever the
  security map. The numbers from \<open>- MAX_SYSCALL_NUMBER\<close> to \<open>-1\<close> are not covered:
  the list index does not raise for them.
\<close>

theorem callback_verdict:
  assumes run: "install_policy cfg security (initial_policy cfg) = Inr p"
  shows "(a \<in> set (SUPPORTED_ABIS cfg) \<and> SYSCALL_INDICIES a = Some ix \<and>
          n < MAX_SYSCALL_NUMBER cfg \<and>
          i0 < SYSCALL_COUNT cfg \<and> Some n \<in> set (translator cfg i0 ix) \<and>
          (\<forall>i<SYSCALL_COUNT cfg. Some n \<in> set (translator cfg i ix) \<longrightarrow> security i = None) \<and>
          dbg_abi d = a \<longrightarrow>
            (a, n, DISALLOW cfg) \<in> set (handler_calls p) \<and>
            (\<forall>h. (a, n, h) \<in> set (handler_calls p) \<longrightarrow> h = DISALLOW cfg) \<and>
            \<not> callback p d (int n)) \<and>
         (int (MAX_SYSCALL_NUMBER cfg) \<le> syscall \<or> syscall < - int (MAX_SYSCALL_NUMBER cfg) \<longrightarrow>
            (callback p d' syscall \<longleftrightarrow>
               dbg_abi d' = PTBOX_ABI_ARM \<and> 0xF0000 < syscall \<and> syscall < 0xF0006))"
proof (intro conjI impI)
  assume h: "a \<in> set (SUPPORTED_ABIS cfg) \<and> SYSCALL_INDICIES a = Some ix \<and>
          n < MAX_SYSCALL_NUMBER cfg \<and>
          i0 < SYSCALL_COUNT cfg \<and> Some n \<in> set (translator cfg i0 ix) \<and>
          (\<forall>i<SYSCALL_COUNT cfg. Some n \<in> set (translator cfg i ix) \<longrightarrow> security i = None) \<and>
          dbg_abi d = a"
  then have a: "a \<in> set (SUPPORTED_ABIS cfg)" and ix: "SYSCALL_INDICIES a = Some ix"
    and n: "n < MAX_SYSCALL_NUMBER cfg" and i0: "i0 < SYSCALL_COUNT cfg"
    and c0: "Some n \<in> set (translator cfg i0 ix)"
    and absent: "\<And>i. i < SYSCALL_COUNT cfg \<Longrightarrow> Some n \<in> set (translator cfg i ix) \<Longrightarrow>
                   security i = None"
    and d: "dbg_abi d = a"
    by blast+
  have guard: "a' = a \<and> c = Some n \<longrightarrow> security i = None"
    if "SYSCALL_INDICIES a' = Some ix'" "i < SYSCALL_COUNT cfg" "c \<in> set (translator cfg i ix')"
    for a' ix' i c
    using that ix absent by auto
  show "(a, n, DISALLOW cfg) \<in> set (handler_calls p)"
  proof (rule install_policy_establishes
      [where R = "\<lambda>q. (a, n, DISALLOW cfg) \<in> set (handler_calls q)", OF run a ix i0 c0])
    fix q q'
    assume "install_call cfg security a i0 (Some n) q = Inr q'"
    then show "(a, n, DISALLOW cfg) \<in> set (handler_calls q')"
      using install_call_slot(4) [of cfg security a i0 "Some n" q q' a n] absent [OF i0 c0]
      by simp
  next
    fix a' ix' i c q q'
    assume "SYSCALL_INDICIES a' = Some ix'" "i < SYSCALL_COUNT cfg"
      "c \<in> set (translator cfg i ix')" "(a, n, DISALLOW cfg) \<in> set (handler_calls q)"
      "install_call cfg security a' i c q = Inr q'"
    then show "(a, n, DISALLOW cfg) \<in> set (handler_calls q')"
      using install_call_slot(3) [of cfg security a' i c q q' a n] guard by blast
  qed
  show "\<forall>h. (a, n, h) \<in> set (handler_calls p) \<longrightarrow> h = DISALLOW cfg"
  proof (rule install_policy_invariant
      [where P = "\<lambda>q. \<forall>h. (a, n, h) \<in> set (handler_calls q) \<longrightarrow> h = DISALLOW cfg", OF run])
    show "\<forall>h. (a, n, h) \<in> set (handler_calls (initial_policy cfg)) \<longrightarrow> h = DISALLOW cfg"
      by (simp add: initial_policy_def)
  next
    fix a' ix' i c q q'
    assume "SYSCALL_INDICIES a' = Some ix'" "i < SYSCALL_COUNT cfg"
      "c \<in> set (translator cfg i ix')"
      "\<forall>h. (a, n, h) \<in> set (handler_calls q) \<longrightarrow> h = DISALLOW cfg"
      "install_call cfg security a' i c q = Inr q'"
    then show "\<forall>h. (a, n, h) \<in> set (handler_calls q') \<longrightarrow> h = DISALLOW cfg"
      using install_call_slot(2) [of cfg security a' i c q q' a n] guard by blast
  qed
  have "length (callbacks p a) = MAX_SYSCALL_NUMBER cfg \<and> callbacks p a ! n = None"
  proof (rule install_policy_invariant
      [where P = "\<lambda>q. length (callbacks q a) = MAX_SYSCALL_NUMBER cfg \<and> callbacks q a ! n = None",
        OF run])
    show "length (callbacks (initial_policy cfg) a) = MAX_SYSCALL_NUMBER cfg \<and>
          callbacks (initial_policy cfg) a ! n = None"
      using n by (simp add: initial_policy_def)
  next
    fix a' ix' i c q q'
    assume s: "SYSCALL_INDICIES a' = Some ix'" "i < SYSCALL_COUNT cfg"
      "c \<in> set (translator cfg i ix')"
      and q: "length (callbacks q a) = MAX_SYSCALL_NUMBER cfg \<and> callbacks q a ! n = None"
      and r: "install_call cfg security a' i c q = Inr q'"
    have "length (callbacks q' a) = MAX_SYSCALL_NUMBER cfg"
      using install_call_length [OF r, of a] q by simp
    moreover have "callbacks q' a ! n = None"
      using install_call_slot(1) [OF r, of a n] guard [OF s] q n by simp
    ultimately show "length (callbacks q' a) = MAX_SYSCALL_NUMBER cfg \<and> callbacks q' a ! n = None"
      by simp
  qed
  then show "\<not> callback p d (int n)"
    using callback_empty_slot [of n p d] d n by simp
next
  assume "int (MAX_SYSCALL_NUMBER cfg) \<le> syscall \<or> syscall < - int (MAX_SYSCALL_NUMBER cfg)"
  then show "callback p d' syscall \<longleftrightarrow>
               dbg_abi d' = PTBOX_ABI_ARM \<and> 0xF0000 < syscall \<and> syscall < 0xF0006"
    using callback_out_of_range [of p d' syscall] install_policy_length [OF run, of "dbg_abi d'"]
    by simp
qed

lemma example_install_returns:
  "\<exists>p. install_policy example_config example_security
          (initial_policy example_config) = Inr p"
  by (simp add: install_policy_def install_abi_def install_syscall_def install_call_def
      example_config_def example_security_def security_get_def initial_policy_def
      call_handler_def upt_rec)

theorem callback_verdict_witness:
  "\<exists>p. install_policy example_config example_security
          (initial_policy example_config) = Inr p \<and>
     PTBOX_ABI_X64 \<in> set (SUPPORTED_ABIS example_config) \<and>
     Some 7 \<in> set (translator example_config 3 1) \<and> example_security 3 = None \<and>
     (PTBOX_ABI_X64, 7, DISALLOW example_config) \<in> set (handler_calls p) \<and>
     \<not> callback p x64_debugger 7 \<and>
     callback p arm_debugger 0xF0002 \<and>
     \<not> callback p x64_debugger 0xF0002 \<and>
     \<not> callback p arm_debugger 0xF0006"
proof -
  from example_install_returns obtain p where
    p: "install_policy example_config example_security
          (initial_policy example_config) = Inr p" ..
  have absent: "\<forall>i<SYSCALL_COUNT example_config.
      Some 7 \<in> set (translator example_config i 1) \<longrightarrow> example_security i = None"
    by (auto simp: example_config_def example_security_def split: if_splits)
  have facts: "PTBOX_ABI_X64 \<in> set (SUPPORTED_ABIS example_config)"
    "SYSCALL_INDICIES PTBOX_ABI_X64 = Some 1" "7 < MAX_SYSCALL_NUMBER example_config"
    "3 < SYSCALL_COUNT example_config" "Some 7 \<in> set (translator example_config 3 1)"
    "example_security 3 = None" "dbg_abi x64_debugger = PTBOX_ABI_X64"
    "dbg_abi arm_debugger = PTBOX_ABI_ARM"
    by (simp_all add: example_config_def example_security_def x64_debugger_def arm_debugger_def)
  have big: "int (MAX_SYSCALL_NUMBER example_config) \<le> 0xF0002"
    "int (MAX_SYSCALL_NUMBER example_config) \<le> 0xF0006"
    by (simp_all add: example_config_def)
  have "(PTBOX_ABI_X64, 7, DISALLOW example_config) \<in> set (handler_calls p) \<and>
      \<not> callback p x64_debugger (int 7)"
    using callback_verdict [OF p, of PTBOX_ABI_X64 1 7 3 x64_debugger] facts absent by blast
  moreover have "callback p arm_debugger 0xF0002"
    using callback_verdict [OF p, where syscall = "0xF0002" and d' = arm_debugger] facts big
    by simp
  moreover have "\<not> callback p x64_debugger 0xF0002"
    using callback_verdict [OF p, where syscall = "0xF0002" and d' = x64_debugger] facts big
    by simp
  moreover have "\<not> callback p arm_debugger 0xF0006"
    using callback_verdict [OF p, where syscall = "0xF0006" and d' = arm_debugger] facts big
    by simp
  ultimately show ?thesis using p facts by auto
qed

text \<open>
  C1. For a native syscall number outside the range of the policy table the verdict is
  to be false (but for the ARM-private window). \<open>callback\<close> tells such a number by the
  \<open>IndexError\<close> of the list index, and a negative index does not raise: it counts from
  the end of the list. With the example policy installed, whose callback for write
  (native number 4, of 8) allows a call with a first argument of 0, the number \<open>-4\<close>
  on x86-64 is outside the range \<open>0..7\<close> and yet the verdict is true: it is the
  verdict of the callback in slot 4.
\<close>

theorem callback_negative_index:
  "\<not> (0 \<le> dbg_syscall negative_debugger \<and>
       dbg_syscall negative_debugger < int (MAX_SYSCALL_NUMBER example_config)) \<and>
   dbg_abi negative_debugger = PTBOX_ABI_X64 \<and>
   (case install_policy example_config example_security (initial_policy example_config) of
      Inl e \<Rightarrow> False
    | Inr p \<Rightarrow> callback p negative_debugger (dbg_syscall negative_debugger))"
  by (simp add: install_policy_def install_abi_def install_syscall_def install_call_def
      example_config_def example_security_def security_get_def initial_policy_def
      call_handler_def upt_rec negative_debugger_def example_debugger_def callback_def
      py_index_def)

text \<open>
  C10. A handler that is neither an integer nor callable makes the installation raise
  (\<open>install_policy_rejects\<close> below), but the exception is the \<open>ValueError\<close> naming the
  handler only when the handler is a string: for \<^verbatim>\<open>None\<close> the concatenation that builds
  the message raises \<open>TypeError\<close>.
\<close>

theorem handler_not_callable_raises:
  "install_policy example_config none_security (initial_policy example_config)
     = Inl (TypeError ''can only concatenate str (not NoneType) to str'') \<and>
   install_policy example_config none_security (initial_policy example_config)
     \<noteq> Inl (ValueError ''Handler not callable: NoneType'') \<and>
   install_policy example_config string_security (initial_policy example_config)
     = Inl (ValueError ''Handler not callable: allow'')"
  by (simp add: install_policy_def install_abi_def install_syscall_def install_call_def
      example_config_def none_security_def string_security_def security_get_def
      initial_policy_def call_handler_def upt_rec TypeError_def ValueError_def)

lemma install_policy_visits:
  assumes run: "install_policy cfg security p = Inr p'"
    and a: "a \<in> set (SUPPORTED_ABIS cfg)" and ix: "SYSCALL_INDICIES a = Some ix"
    and i: "i < SYSCALL_COUNT cfg" and c: "c \<in> set (translator cfg i ix)"
  shows "\<exists>q q'. install_call cfg security a i c q = Inr q'"
proof -
  from run have "for_each (install_abi cfg security) (SUPPORTED_ABIS cfg) p = Inr p'"
    by (simp add: install_policy_def)
  from for_each_visits [OF this a] obtain t t' where "install_abi cfg security a t = Inr t'"
    by blast
  with ix have l: "for_each (install_syscall cfg security a ix) [0..<SYSCALL_COUNT cfg] t = Inr t'"
    by (simp add: install_abi_def)
  have "i \<in> set [0..<SYSCALL_COUNT cfg]" using i by simp
  from for_each_visits [OF l this] obtain u u' where
    "install_syscall cfg security a ix i u = Inr u'" by blast
  then have "for_each (install_call cfg security a i) (translator cfg i ix) u = Inr u'"
    by (simp add: install_syscall_def)
  from for_each_visits [OF this c] show ?thesis .
qed

lemma install_policy_rejects:
  assumes a: "a \<in> set (SUPPORTED_ABIS cfg)" and ix: "SYSCALL_INDICIES a = Some ix"
    and i: "i < SYSCALL_COUNT cfg" and c: "Some call \<in> set (translator cfg i ix)"
    and bad: "security i = Some (HStr s) \<or> security i = Some (HObject ty)"
  shows "\<exists>e. install_policy cfg security p = Inl e"
proof (cases "install_policy cfg security p")
  case (Inl e)
  then show ?thesis by blast
next
  case (Inr p')
  from install_policy_visits [OF Inr a ix i c] obtain q q' where
    "install_call cfg security a i (Some call) q = Inr q'" by blast
  with bad show ?thesis by (auto simp: install_call_def security_get_def)
qed

lemma example_init_policy:
  "\<exists>p. init_policy example_config example_args = Inr p"
  using example_install_returns by (simp add: init_policy_def example_args_def)

lemma close_child_ends_events:
  "SetDied \<notin> set (close_child_ends t)" "SetSpawnedOrErrored \<notin> set (close_child_ends t)"
  "CallSpawn \<notin> set (close_child_ends t)"
  "count_list (close_child_ends t) SetDied = 0"
  "count_list (close_child_ends t) SetSpawnedOrErrored = 0"
  by (simp_all add: close_child_ends_def)

lemma takeWhile_close_child_ends:
  "takeWhile (\<lambda>e. e \<noteq> SetSpawnedOrErrored) (close_child_ends t @ SetSpawnedOrErrored # es)
     = close_child_ends t"
  by (simp add: close_child_ends_def)

lemma run_process_events:
  "run_process FREEBSD env t = (t', es, code) \<Longrightarrow>
   count_list es SetSpawnedOrErrored = 1 \<and> count_list es SetDied = 1 \<and>
   (spawn_raises env = None \<longrightarrow> strictly_before SetSpawnedOrErrored SetDied es) \<and>
   (spawn_raises env \<noteq> None \<longrightarrow> strictly_before SetDied SetSpawnedOrErrored es)"
  by (cases "spawn_raises env")
    (auto simp: run_process_def strictly_before_def close_child_ends_events
      takeWhile_close_child_ends)

text \<open>
  C3, amended. In every construction that starts the worker (the policy installation
  did not raise), \<open>spawned_or_errored\<close> is set exactly once and \<open>died\<close> exactly
  once. When the spawn returns, \<open>spawned_or_errored\<close> is set strictly before
  \<open>died\<close>. When the spawn raises, \<open>died\<close> is set first, in the \<^verbatim>\<open>except\<close> block, and
  \<open>spawned_or_errored\<close> after it, in the \<^verbatim>\<open>finally\<close> block.
\<close>

theorem spawned_or_errored_once:
  assumes "init_policy cfg a = Inr p"
    and "es = worker_events (TracedPopen_init cfg FREEBSD env a)"
  shows "count_list es SetSpawnedOrErrored = 1 \<and> count_list es SetDied = 1 \<and>
     (spawn_raises env = None \<longrightarrow> strictly_before SetSpawnedOrErrored SetDied es) \<and>
     (spawn_raises env \<noteq> None \<longrightarrow> strictly_before SetDied SetSpawnedOrErrored es)"
proof -
  obtain t' es' code where r: "run_process FREEBSD env (init_tracer a) = (t', es', code)"
    by (cases "run_process FREEBSD env (init_tracer a)") auto
  with assms have "es = es'" by (simp add: TracedPopen_init_def)
  with run_process_events [OF r] show ?thesis by simp
qed

lemma example_failing_events:
  "worker_events (TracedPopen_init example_config False failing_env example_args) =
     [CallSpawn, SetDied, CloseFd ''child_stdin'', CloseFd ''child_stdout'', SetSpawnedOrErrored]"
proof -
  from example_init_policy obtain p where
    "init_policy example_config example_args = Inr p" ..
  then show ?thesis
    by (simp add: TracedPopen_init_def run_process_def failing_env_def init_tracer_def
        example_args_def close_child_ends_def)
qed

text \<open>
  C3, as stated: \<open>spawned_or_errored\<close> is set before \<open>died\<close> in every construction,
  also when the spawn raises. It is not: when the spawn raises, \<open>died\<close> is set first.
\<close>

theorem spawned_before_died_counterexample:
  "spawn_raises failing_env = Some spawn_failure \<and>
   worker_events (TracedPopen_init example_config False failing_env example_args) =
     [CallSpawn, SetDied, CloseFd ''child_stdin'', CloseFd ''child_stdout'', SetSpawnedOrErrored] \<and>
   \<not> strictly_before SetSpawnedOrErrored SetDied
       (worker_events (TracedPopen_init example_config False failing_env example_args))"
proof -
  have "spawn_raises failing_env = Some spawn_failure" by (simp add: failing_env_def)
  then show ?thesis by (simp add: example_failing_events strictly_before_def)
qed

theorem spawned_or_errored_once_witness:
  "(\<exists>p. init_policy example_config example_args = Inr p) \<and>
   spawn_raises working_env = None \<and>
   strictly_before SetSpawnedOrErrored SetDied
     (worker_events (TracedPopen_init example_config False working_env example_args)) \<and>
   spawn_raises failing_env \<noteq> None \<and>
   strictly_before SetDied SetSpawnedOrErrored
     (worker_events (TracedPopen_init example_config False failing_env example_args)) \<and>
   count_list
     (worker_events (TracedPopen_init example_config False failing_env example_args))
     SetSpawnedOrErrored = 1"
proof -
  from example_init_policy obtain p where
    p: "init_policy example_config example_args = Inr p" ..
  have w: "spawn_raises working_env = None" by (simp add: working_env_def)
  have f: "spawn_raises failing_env \<noteq> None" by (simp add: failing_env_def)
  from spawned_or_errored_once [OF p refl, of False working_env] w
    spawned_or_errored_once [OF p refl, of False failing_env] f p
  show ?thesis by blast
qed

text \<open>
  C5. The exception that the spawn raised is to be raised again in the caller thread.
  The worker stores \<^verbatim>\<open>sys.exc_info()[0]\<close>, which is the class of the exception and not
  the exception, and the caller raises that class. A \<^verbatim>\<open>RuntimeError\<close> with a message
  reaches the caller as a new \<^verbatim>\<open>RuntimeError\<close> without it, and an exception whose class
  cannot be built without arguments reaches the caller as a \<^verbatim>\<open>TypeError\<close>.
\<close>

theorem spawn_error_not_reraised:
  "spawn_raises failing_env = Some spawn_failure \<and>
   ended (TracedPopen_init example_config False failing_env example_args)
     = Raised (Exn (ExcClass ''RuntimeError'' True) []) \<and>
   ended (TracedPopen_init example_config False failing_env example_args)
     \<noteq> Raised spawn_failure \<and>
   spawn_raises unicode_env = Some unicode_failure \<and>
   ended (TracedPopen_init example_config False unicode_env example_args)
     = Raised (TypeError ''UnicodeEncodeError() missing required arguments'') \<and>
   ended (TracedPopen_init example_config False unicode_env example_args)
     \<noteq> Raised unicode_failure"
proof -
  from example_init_policy obtain p where
    "init_policy example_config example_args = Inr p" ..
  then show ?thesis
    by (simp add: TracedPopen_init_def run_process_def failing_env_def unicode_env_def
        init_tracer_def example_args_def wait_spawned_def raise_class_def spawn_failure_def
        unicode_failure_def TypeError_def)
qed

text \<open>
  What the worker and the caller do when the spawn raises: the worker catches the
  exception, stores its class and sets both \<open>died\<close> and \<open>spawned_or_errored\<close>, so the
  caller does not block; at the end of the constructor the caller raises the stored
  class.
\<close>

theorem spawn_error_stored_and_raised:
  assumes "init_policy cfg a = Inr p" and "spawn_raises env = Some e"
    and "c = TracedPopen_init cfg FREEBSD env a"
  shows "(\<exists>t. worker_state c = Some t \<and> self_spawn_error t = Some (exn_class e)) \<and>
     SetSpawnedOrErrored \<in> set (worker_events c) \<and> SetDied \<in> set (worker_events c) \<and>
     ended c = Raised (raise_class (exn_class e)) \<and> ended c \<noteq> Blocked \<and>
     (cls_nullary (exn_class e) \<longrightarrow> ended c = Raised (Exn (exn_class e) []))"
  using assms
  by (simp add: TracedPopen_init_def run_process_def wait_spawned_def raise_class_def)

theorem spawn_error_stored_and_raised_witness:
  "(\<exists>p. init_policy example_config example_args = Inr p) \<and>
   spawn_raises failing_env = Some spawn_failure \<and>
   cls_nullary (exn_class spawn_failure) \<and>
   SetSpawnedOrErrored \<in> set (worker_events
     (TracedPopen_init example_config False failing_env example_args)) \<and>
   SetDied \<in> set (worker_events
     (TracedPopen_init example_config False failing_env example_args)) \<and>
   ended (TracedPopen_init example_config False failing_env example_args)
     = Raised (Exn (ExcClass ''RuntimeError'' True) [])"
proof -
  from example_init_policy obtain p where
    p: "init_policy example_config example_args = Inr p" ..
  have f: "spawn_raises failing_env = Some spawn_failure" by (simp add: failing_env_def)
  have n: "cls_nullary (exn_class spawn_failure)"
    "exn_class spawn_failure = ExcClass ''RuntimeError'' True"
    by (simp_all add: spawn_failure_def)
  from spawn_error_stored_and_raised [OF p f refl, of False] n p f
  show ?thesis by auto
qed

text \<open>
  C7, as stated: on a wake past a limit the watchdog kills the process group with
  \<open>SIGKILL\<close>. It does not when the return code is already there: \<^verbatim>\<open>kill\<close> only logs.
\<close>

theorem shocker_kill_counterexample:
  "\<not> w_died late_wake \<and> w_execution_time late_wake > self_time example_tracer \<and>
   shocker_thread False example_tracer [late_wake] =
     (example_tracer\<lparr>self_is_tle := True\<rparr>,
      [LogWarning ''Shocker activated and killed'',
       LogWarning ''Skipping the killing of process because it already exited''],
      Exited) \<and>
   Killpg SIGKILL \<notin> set (fst (snd (shocker_thread False example_tracer [late_wake])))"
  by (simp add: late_wake_def example_tracer_def kill_def)

text \<open>
  C7, amended. A construction that reaches the thread start (the policy installation did
  not raise) starts the watchdog iff the CPU limit is not zero. On a wake with \<open>died\<close>
  set the watchdog exits. On a wake with \<open>died\<close> not set: if \<open>execution_time\<close> exceeds
  the CPU limit or \<open>wall_clock_time\<close> the wall limit, it calls \<^verbatim>\<open>kill\<close>, sets
  \<open>is_tle\<close> and exits, where \<^verbatim>\<open>kill\<close> sends \<open>SIGKILL\<close> to the process group iff the
  return code is still null; otherwise it sends the wake signal (\<open>SIGSTOP\<close> on FreeBSD,
  \<open>SIGWINCH\<close> elsewhere) to the process group and goes on with the next wake, whether
  or not the delivery raised.
\<close>

theorem shocker_thread_wake:
  "(init_policy cfg a = Inr p \<longrightarrow>
      (shocker_started (TracedPopen_init cfg FREEBSD env a) \<longleftrightarrow> arg_time a \<noteq> 0)) \<and>
   (w_died w \<longrightarrow> shocker_thread freebsd t (w # ws) = (t, [], Exited)) \<and>
   (\<not> w_died w \<and>
    (w_execution_time w > self_time t \<or> w_wall_clock_time w > self_wall_time t) \<longrightarrow>
      shocker_thread freebsd t (w # ws) =
        (t\<lparr>self_is_tle := True\<rparr>, LogWarning ''Shocker activated and killed'' # kill w, Exited) \<and>
      (Killpg SIGKILL \<in> set (kill w) \<longleftrightarrow> w_returncode w = None)) \<and>
   (\<not> w_died w \<and>
    \<not> (w_execution_time w > self_time t \<or> w_wall_clock_time w > self_wall_time t) \<longrightarrow>
      shocker_thread freebsd t (w # ws) =
        (fst (shocker_thread freebsd t ws),
         Killpg (wake_signal freebsd) # fst (snd (shocker_thread freebsd t ws)),
         snd (snd (shocker_thread freebsd t ws)))) \<and>
   wake_signal True = SIGSTOP \<and> wake_signal False = SIGWINCH"
proof -
  have started: "init_policy cfg a = Inr p \<longrightarrow>
      (shocker_started (TracedPopen_init cfg FREEBSD env a) \<longleftrightarrow> arg_time a \<noteq> 0)"
    by (simp add: TracedPopen_init_def split: prod.splits)
  have k: "Killpg SIGKILL \<in> set (kill w) \<longleftrightarrow> w_returncode w = None"
    by (simp add: kill_def split: option.splits)
  have go_on: "\<not> w_died w \<and>
    \<not> (w_execution_time w > self_time t \<or> w_wall_clock_time w > self_wall_time t) \<longrightarrow>
      shocker_thread freebsd t (w # ws) =
        (fst (shocker_thread freebsd t ws),
         Killpg (wake_signal freebsd) # fst (snd (shocker_thread freebsd t ws)),
         snd (snd (shocker_thread freebsd t ws)))"
    by (simp split: prod.splits)
  from started k go_on show ?thesis by (simp add: wake_signal_def)
qed

theorem shocker_thread_wake_witness:
  "(\<exists>p. init_policy example_config example_args = Inr p) \<and>
   shocker_started (TracedPopen_init example_config False working_env example_args) \<and>
   arg_time example_args \<noteq> 0 \<and>
   w_died final_wake \<and>
   shocker_thread True example_tracer [final_wake, over_wake] = (example_tracer, [], Exited) \<and>
   shocker_thread False example_tracer [early_wake, over_wake] =
     (example_tracer\<lparr>self_is_tle := True\<rparr>,
      [Killpg SIGWINCH, LogWarning ''Shocker activated and killed'',
       LogWarning ''Request the killing of process'', Killpg SIGKILL],
      Exited)"
proof -
  from example_init_policy obtain p where
    p: "init_policy example_config example_args = Inr p" ..
  have t: "arg_time example_args \<noteq> 0" by (simp add: example_args_def)
  have s: "shocker_started
      (TracedPopen_init example_config False working_env example_args)"
    using shocker_thread_wake [of example_config example_args p False working_env] p t
    by blast
  have e: "\<not> w_died early_wake \<and>
    \<not> (w_execution_time early_wake > self_time example_tracer \<or>
       w_wall_clock_time early_wake > self_wall_time example_tracer)"
    by (simp add: early_wake_def example_tracer_def)
  have o: "\<not> w_died over_wake \<and>
    (w_execution_time over_wake > self_time example_tracer \<or>
     w_wall_clock_time over_wake > self_wall_time example_tracer)"
    by (simp add: over_wake_def example_tracer_def)
  have second: "shocker_thread False example_tracer [over_wake] =
        (example_tracer\<lparr>self_is_tle := True\<rparr>,
         LogWarning ''Shocker activated and killed'' # kill over_wake, Exited)"
    using shocker_thread_wake [where w = over_wake and t = example_tracer and ws = "[]"
        and freebsd = False] o by blast
  have first: "shocker_thread False example_tracer [early_wake, over_wake] =
        (fst (shocker_thread False example_tracer [over_wake]),
         Killpg (wake_signal False) # fst (snd (shocker_thread False example_tracer [over_wake])),
         snd (snd (shocker_thread False example_tracer [over_wake])))"
    using shocker_thread_wake [where w = early_wake and t = example_tracer
        and ws = "[over_wake]" and freebsd = False] e by blast
  have "shocker_thread False example_tracer [early_wake, over_wake] =
     (example_tracer\<lparr>self_is_tle := True\<rparr>,
      [Killpg SIGWINCH, LogWarning ''Shocker activated and killed'',
       LogWarning ''Request the killing of process'', Killpg SIGKILL],
      Exited)"
    unfolding first second by (simp add: kill_def over_wake_def wake_signal_def)
  moreover have f: "w_died final_wake" by (simp add: final_wake_def)
  moreover have "shocker_thread True example_tracer [final_wake, over_wake]
      = (example_tracer, [], Exited)"
    using shocker_thread_wake [where w = final_wake and t = example_tracer
        and ws = "[over_wake]" and freebsd = True] f by blast
  ultimately show ?thesis using p t s by blast
qed

end
